theory Spec2Isabelle
  imports Complex_Main "HOL-Library.Word" "HOL-Library.Monad_Syntax"
begin

unbundle bit_operations_syntax

section \<open>Escape analysis (src/compiler/escape-analysis.cc): data model\<close>

text \<open>
  The embedding follows \<^verbatim>\<open>src/src/compiler/escape-analysis.cc\<close>.

  \<^item> A \<^verbatim>\<open>Node*\<close> is the id of the node (ids are dense and unique per node), and
    \<^verbatim>\<open>nullptr\<close> is \<open>None\<close>.
  \<^item> A \<^verbatim>\<open>ZoneVector\<close> is a list; \<^verbatim>\<open>v[i]\<close> has no bounds check in the source, so an
    access outside the vector is a failing execution (\<open>None\<close>), as is a failed
    \<^verbatim>\<open>DCHECK\<close>, \<^verbatim>\<open>CHECK\<close> or \<^verbatim>\<open>UNREACHABLE\<close> and the dereference of a null pointer.
  \<^item> Zone-allocated \<^verbatim>\<open>VirtualObject\<close>s and \<^verbatim>\<open>VirtualState\<close>s live in an explicit store;
    a pointer is the index of the cell, \<^verbatim>\<open>new (zone)\<close> appends a cell.
  \<^item> A loop that may run forever is a \<^theory_text>\<open>partial_function (option)\<close>: not returning is
    \<open>None\<close> as well.
\<close>

type_synonym NodeId = nat
type_synonym NodePtr = "NodeId option"
type_synonym Alias = nat

definition vec_at :: "'a list \<Rightarrow> nat \<Rightarrow> 'a option" where
  "vec_at v i = (if i < length v then Some (v ! i) else None)"

definition vec_set :: "'a list \<Rightarrow> nat \<Rightarrow> 'a \<Rightarrow> 'a list option" where
  "vec_set v i x = (if i < length v then Some (v[i := x]) else None)"

text \<open>\<^verbatim>\<open>std::vector::resize(n, d)\<close>: cut to \<open>n\<close> elements, or fill up with \<open>d\<close>.\<close>

definition vec_resize :: "nat \<Rightarrow> 'a \<Rightarrow> 'a list \<Rightarrow> 'a list" where
  "vec_resize n d v = take n v @ replicate (n - length v) d"

text \<open>A \<^verbatim>\<open>for\<close> loop over a fixed range whose body may fail.\<close>

fun for_each :: "'a list \<Rightarrow> ('a \<Rightarrow> 's \<Rightarrow> 's option) \<Rightarrow> 's \<Rightarrow> 's option" where
  "for_each [] body s = Some s"
| "for_each (x # xs) body s =
     (case body x s of None \<Rightarrow> None | Some s' \<Rightarrow> for_each xs body s')"

subsection \<open>The status table of EscapeStatusAnalysis\<close>

text \<open>
  Modelled from the spec: the \<^verbatim>\<open>Status\<close> enum of \<^verbatim>\<open>EscapeStatusAnalysis\<close> and the types
  \<^verbatim>\<open>Alias\<close> and \<^verbatim>\<open>NodeId\<close> are declared in \<^verbatim>\<open>escape-analysis.h\<close>, which is not among the
  sources. The spec lists the flags (Tracked, Escaped, InQueue, OnStack, Visited,
  DanglingComputed, Dangling, BranchPointComputed, BranchPoint); each is one bit of a
  16-bit flag word, and \<^verbatim>\<open>kUnknown\<close> is the empty set. Aliases and node ids are unsigned
  32-bit; they are natural numbers here, the two sentinels at the top of the 32-bit range.
\<close>

definition kUnknown :: "16 word" where "kUnknown = 0"
definition kTracked :: "16 word" where "kTracked = 2 ^ 0"
definition kEscaped :: "16 word" where "kEscaped = 2 ^ 1"
definition kOnStack :: "16 word" where "kOnStack = 2 ^ 2"
definition kVisited :: "16 word" where "kVisited = 2 ^ 3"
definition kDanglingComputed :: "16 word" where "kDanglingComputed = 2 ^ 4"
definition kDangling :: "16 word" where "kDangling = 2 ^ 5"
definition kBranchPointComputed :: "16 word" where "kBranchPointComputed = 2 ^ 6"
definition kBranchPoint :: "16 word" where "kBranchPoint = 2 ^ 7"
definition kInQueue :: "16 word" where "kInQueue = 2 ^ 8"

definition kNotReachable :: Alias where "kNotReachable = 2 ^ 32 - 1"
definition kUntrackable :: Alias where "kUntrackable = 2 ^ 32 - 2"

record EscapeStatusAnalysis =
  sa_stack :: "NodeId list"
  sa_status :: "16 word list"
  sa_next_free_alias :: Alias
  sa_status_stack :: "NodeId list"
  sa_aliases :: "Alias list"

definition HasEntry :: "EscapeStatusAnalysis \<Rightarrow> NodeId \<Rightarrow> bool option" where
  "HasEntry sa node =
     do { st \<leftarrow> vec_at (sa_status sa) node; Some (st AND (kTracked OR kEscaped) \<noteq> 0) }"

definition EscapeStatusAnalysis_IsVirtual :: "EscapeStatusAnalysis \<Rightarrow> NodeId \<Rightarrow> bool option" where
  "EscapeStatusAnalysis_IsVirtual sa nid =
     do { st \<leftarrow> vec_at (sa_status sa) nid;
          Some (st AND kTracked \<noteq> 0 \<and> \<not> (st AND kEscaped \<noteq> 0)) }"

definition EscapeStatusAnalysis_IsEscaped :: "EscapeStatusAnalysis \<Rightarrow> NodeId \<Rightarrow> bool option" where
  "EscapeStatusAnalysis_IsEscaped sa node =
     do { st \<leftarrow> vec_at (sa_status sa) node; Some (st AND kEscaped \<noteq> 0) }"

definition EscapeStatusAnalysis_SetEscaped ::
  "EscapeStatusAnalysis \<Rightarrow> NodeId \<Rightarrow> (bool \<times> EscapeStatusAnalysis) option" where
  "EscapeStatusAnalysis_SetEscaped sa node =
     do { st \<leftarrow> vec_at (sa_status sa) node;
          let changed = \<not> (st AND kEscaped \<noteq> 0);
          Some (changed, sa\<lparr>sa_status := (sa_status sa)[node := st OR (kEscaped OR kTracked)]\<rparr>) }"

definition GetStatusVectorSize :: "EscapeStatusAnalysis \<Rightarrow> nat" where
  "GetStatusVectorSize sa = length (sa_status sa)"

subsection \<open>The replacement table\<close>

definition replacement :: "NodePtr list \<Rightarrow> NodeId \<Rightarrow> NodePtr" where
  "replacement replacements nid =
     (if nid \<ge> length replacements then None else replacements ! nid)"


text \<open>\<^verbatim>\<open>while (replacement(node)) node = replacement(node); return node;\<close>\<close>

partial_function (option) ResolveReplacement :: "NodePtr list \<Rightarrow> NodeId \<Rightarrow> NodeId option" where
  "ResolveReplacement replacements node =
     (case replacement replacements node of
        None \<Rightarrow> Some node
      | Some rep \<Rightarrow> ResolveReplacement replacements rep)"

text \<open>
  \<^verbatim>\<open>GetReplacement(NodeId id)\<close>: the loop carries \<^verbatim>\<open>node\<close> (initially null) and \<^verbatim>\<open>id\<close>.
\<close>

partial_function (option) GetReplacement_loop ::
  "NodePtr list \<Rightarrow> NodePtr \<Rightarrow> NodeId \<Rightarrow> NodePtr option" where
  "GetReplacement_loop replacements node nid =
     (case replacement replacements nid of
        None \<Rightarrow> Some node
      | Some rep \<Rightarrow> GetReplacement_loop replacements (Some rep) rep)"

definition GetReplacement :: "NodePtr list \<Rightarrow> NodeId \<Rightarrow> NodePtr option" where
  "GetReplacement replacements nid = GetReplacement_loop replacements None nid"

text \<open>The edges of the replacement table, for stating that it has no cycle.\<close>

definition replacement_edges :: "NodePtr list \<Rightarrow> (NodeId \<times> NodeId) set" where
  "replacement_edges replacements = {(n, m). replacement replacements n = Some m}"

subsection \<open>The IR graph, as far as the analysis reads it\<close>

text \<open>
  Modelled from the spec: \<^verbatim>\<open>Node\<close>, \<^verbatim>\<open>Operator\<close>, \<^verbatim>\<open>Graph\<close>, \<^verbatim>\<open>NodeProperties\<close> and the
  operator parameters are external to the sources (spec, section 6). A node has an
  operator and its inputs in the order value, context, frame state, effect, control; the
  operator gives the opcode, the input counts and its parameter. A node's id is its
  position in the graph, and \<^verbatim>\<open>NewNode\<close> appends.
\<close>

datatype IrOpcode =
    kStart | kEnd | kPhi | kEffectPhi | kBeginRegion | kFinishRegion | kAllocate
  | kStoreField | kLoadField | kStoreElement | kLoadElement | kLoad
  | kFrameState | kStateValues | kReferenceEqual | kObjectIsSmi | kSelect | kObjectState
  | kNumberConstant | kInt32Constant | kInt64Constant | kFloat32Constant | kFloat64Constant
  | kOtherOpcode nat

text \<open>
  A \<^verbatim>\<open>double\<close> is a real number, or an infinity or a NaN (\<open>NonFinite\<close>): the value of a
  \<^verbatim>\<open>NumberConstant\<close>.
\<close>

datatype Double = Finite real | NonFinite

datatype OpParameter =
    NoParameter
  | NumberValue Double
  | FieldAccess int
  | ElementAccess int nat

record Operator =
  opcode :: IrOpcode
  ValueInputCount :: nat
  ContextInputCount :: nat
  FrameStateInputCount :: nat
  EffectInputCount :: nat
  ControlInputCount :: nat
  EffectOutputCount :: nat
  op_parameter :: OpParameter

record Node =
  node_op :: Operator
  node_inputs :: "NodeId list"

record Graph =
  g_nodes :: "Node list"
  graph_start :: NodeId
  graph_end :: NodeId

definition NodeCount :: "Graph \<Rightarrow> nat" where
  "NodeCount g = length (g_nodes g)"

definition node_at :: "Graph \<Rightarrow> NodeId \<Rightarrow> Node option" where
  "node_at g n = vec_at (g_nodes g) n"

definition node_opcode :: "Graph \<Rightarrow> NodeId \<Rightarrow> IrOpcode option" where
  "node_opcode g n = map_option (\<lambda>nd. opcode (node_op nd)) (node_at g n)"

text \<open>A \<^verbatim>\<open>for\<close> loop whose body may \<^verbatim>\<open>return\<close> a value: \<open>Some r\<close> ends the loop.\<close>

fun for_each_until ::
  "'a list \<Rightarrow> ('a \<Rightarrow> 's \<Rightarrow> ('r option \<times> 's) option) \<Rightarrow> 's \<Rightarrow> ('r option \<times> 's) option" where
  "for_each_until [] body s = Some (None, s)"
| "for_each_until (x # xs) body s =
     (case body x s of
        None \<Rightarrow> None
      | Some (Some r, s') \<Rightarrow> Some (Some r, s')
      | Some (None, s') \<Rightarrow> for_each_until xs body s')"



record Edge =
  edge_from :: NodeId
  edge_to :: NodeId
  edge_index :: nat

definition node_operator :: "Graph \<Rightarrow> NodeId \<Rightarrow> Operator option" where
  "node_operator g n = map_option node_op (node_at g n)"

definition InputAt :: "Graph \<Rightarrow> NodeId \<Rightarrow> nat \<Rightarrow> NodeId option" where
  "InputAt g node i = do { nd \<leftarrow> node_at g node; vec_at (node_inputs nd) i }"

definition FirstEffectIndex :: "Operator \<Rightarrow> nat" where
  "FirstEffectIndex opr = ValueInputCount opr + ContextInputCount opr + FrameStateInputCount opr"

definition FirstControlIndex :: "Operator \<Rightarrow> nat" where
  "FirstControlIndex opr = FirstEffectIndex opr + EffectInputCount opr"

definition GetValueInput :: "Graph \<Rightarrow> NodeId \<Rightarrow> nat \<Rightarrow> NodeId option" where
  "GetValueInput g node i =
     do { opr \<leftarrow> node_operator g node;
          if i < ValueInputCount opr then InputAt g node i else None }"

definition GetEffectInput :: "Graph \<Rightarrow> NodeId \<Rightarrow> nat \<Rightarrow> NodeId option" where
  "GetEffectInput g node i =
     do { opr \<leftarrow> node_operator g node;
          if i < EffectInputCount opr then InputAt g node (FirstEffectIndex opr + i) else None }"

definition GetControlInput :: "Graph \<Rightarrow> NodeId \<Rightarrow> NodeId option" where
  "GetControlInput g node =
     do { opr \<leftarrow> node_operator g node;
          if 0 < ControlInputCount opr then InputAt g node (FirstControlIndex opr) else None }"

definition IsEffectEdge :: "Graph \<Rightarrow> Edge \<Rightarrow> bool option" where
  "IsEffectEdge g e =
     do { opr \<leftarrow> node_operator g (edge_from e);
          Some (FirstEffectIndex opr \<le> edge_index e
                \<and> edge_index e < FirstEffectIndex opr + EffectInputCount opr) }"

definition ReplaceValueInput :: "Graph \<Rightarrow> NodeId \<Rightarrow> NodeId \<Rightarrow> nat \<Rightarrow> Graph option" where
  "ReplaceValueInput g node new_input index =
     do { nd \<leftarrow> node_at g node;
          if index < ValueInputCount (node_op nd)
          then do { ins \<leftarrow> vec_set (node_inputs nd) index new_input;
                    Some (g\<lparr>g_nodes := (g_nodes g)[node := nd\<lparr>node_inputs := ins\<rparr>]\<rparr>) }
          else None }"

definition input_edges :: "Graph \<Rightarrow> NodeId \<Rightarrow> Edge list option" where
  "input_edges g node =
     do { nd \<leftarrow> node_at g node;
          Some (map (\<lambda>i. \<lparr>edge_from = node, edge_to = node_inputs nd ! i, edge_index = i\<rparr>)
                  [0..<length (node_inputs nd)]) }"

text \<open>
  The uses of a node are the input edges of the graph that point to it, here in the order
  of the using nodes' ids (the order in which \<^verbatim>\<open>use_edges()\<close> lists them is not fixed by
  the sources at hand).
\<close>

definition use_edges :: "Graph \<Rightarrow> NodeId \<Rightarrow> Edge list" where
  "use_edges g node =
     concat (map (\<lambda>u. concat (map (\<lambda>i. if node_inputs (g_nodes g ! u) ! i = node
                                         then [\<lparr>edge_from = u, edge_to = node, edge_index = i\<rparr>]
                                         else [])
                                [0..<length (node_inputs (g_nodes g ! u))]))
               [0..<length (g_nodes g)])"

definition NewNode :: "Graph \<Rightarrow> Operator \<Rightarrow> NodeId list \<Rightarrow> NodeId \<times> Graph" where
  "NewNode g opr ins =
     (length (g_nodes g), g\<lparr>g_nodes := g_nodes g @ [\<lparr>node_op = opr, node_inputs = ins\<rparr>]\<rparr>)"

text \<open>\<^verbatim>\<open>common->Phi(MachineRepresentation::kTagged, n)\<close>: \<open>n\<close> value inputs, one control input.\<close>

definition Phi :: "nat \<Rightarrow> Operator" where
  "Phi value_input_count =
     \<lparr>opcode = kPhi, ValueInputCount = value_input_count, ContextInputCount = 0,
      FrameStateInputCount = 0, EffectInputCount = 0, ControlInputCount = 1,
      EffectOutputCount = 0, op_parameter = NoParameter\<rparr>"

text \<open>
  \<^verbatim>\<open>NumberMatcher\<close>: a node has a value when it is a \<^verbatim>\<open>NumberConstant\<close>; the value is
  the constant, a double.
\<close>

definition NumberMatcher :: "Graph \<Rightarrow> NodeId \<Rightarrow> Double option option" where
  "NumberMatcher g n =
     do { opr \<leftarrow> node_operator g n;
          Some (if opcode opr = kNumberConstant
                then (case op_parameter opr of NumberValue v \<Rightarrow> Some v | _ \<Rightarrow> None)
                else None) }"

text \<open>
  The \<^verbatim>\<open>DCHECK\<close> that follows each \<^verbatim>\<open>NumberMatcher\<close>: the node is no machine-level constant.
\<close>

definition not_machine_constant :: "Graph \<Rightarrow> NodeId \<Rightarrow> unit option" where
  "not_machine_constant g n =
     do { oc \<leftarrow> node_opcode g n;
          if oc \<noteq> kInt32Constant \<and> oc \<noteq> kInt64Constant
             \<and> oc \<noteq> kFloat32Constant \<and> oc \<noteq> kFloat64Constant
          then Some () else None }"

text \<open>
  \<^verbatim>\<open>kPointerSize\<close> is \<open>2 ^ kPointerSizeLog2\<close>; the functions that need it take
  \<^verbatim>\<open>kPointerSizeLog2\<close> as their first argument (a constant of the build, 2 or 3).
\<close>

definition kPointerSize :: "nat \<Rightarrow> nat" where
  "kPointerSize kPointerSizeLog2 = 2 ^ kPointerSizeLog2"

text \<open>
  Arithmetic on doubles, as far as the analysis uses it.

  \<^item> A conversion of a double to an integer type cuts the fraction (\<open>c_trunc\<close>); C++ leaves
    it undefined when the result is outside the type, and for an infinity or a NaN:
    these executions are \<open>None\<close>. \<^verbatim>\<open>size_t\<close> has \<open>8 * kPointerSize\<close> bits, \<^verbatim>\<open>int\<close> has 32.
  \<^item> \<^verbatim>\<open>d / kPointerSize\<close> divides by a power of two, which is exact (below the least
    normal double the quotient may lose digits, but it stays below 1 in magnitude, so its
    conversion is 0 either way).
  \<^item> \<^verbatim>\<open>d + i\<close> with an \<^verbatim>\<open>int\<close> \<open>i\<close> is the sum rounded to the nearest double, ties to the
    even significand (\<open>double_round\<close>: 53 significant bits, least exponent \<open>-1022\<close>).
\<close>

definition c_trunc :: "real \<Rightarrow> int" where
  "c_trunc x = (if x < 0 then \<lceil>x\<rceil> else \<lfloor>x\<rfloor>)"

definition double_to_size_t :: "nat \<Rightarrow> Double \<Rightarrow> nat option" where
  "double_to_size_t kPointerSizeLog2 d =
     (case d of
        Finite x \<Rightarrow>
          if 0 \<le> c_trunc x \<and> c_trunc x < 2 ^ (8 * kPointerSize kPointerSizeLog2)
          then Some (nat (c_trunc x)) else None
      | NonFinite \<Rightarrow> None)"


definition double_div :: "Double \<Rightarrow> nat \<Rightarrow> Double" where
  "double_div d k = (case d of Finite x \<Rightarrow> Finite (x / real k) | NonFinite \<Rightarrow> NonFinite)"




subsection \<open>VirtualObject\<close>

definition VirtualObject_kInitial :: "8 word" where "VirtualObject_kInitial = 0"
definition VirtualObject_kTracked :: "8 word" where "VirtualObject_kTracked = 2 ^ 0"
definition VirtualObject_kInitialized :: "8 word" where "VirtualObject_kInitialized = 2 ^ 1"
definition VirtualObject_kCopyRequired :: "8 word" where "VirtualObject_kCopyRequired = 2 ^ 2"

text \<open>\<open>vo_owner\<close> is the \<^verbatim>\<open>VirtualState*\<close> owner: the address of a state in the zone.\<close>

record VirtualObject =
  vo_id :: NodeId
  vo_status :: "8 word"
  vo_fields :: "NodePtr list"
  vo_phi :: "bool list"
  vo_object_state :: NodePtr
  vo_owner :: nat

text \<open>The three constructors, in the order of the source.\<close>

definition VirtualObject_new :: "NodeId \<Rightarrow> nat \<Rightarrow> VirtualObject" where
  "VirtualObject_new nid owner =
     \<lparr>vo_id = nid, vo_status = VirtualObject_kInitial, vo_fields = [], vo_phi = [],
      vo_object_state = None, vo_owner = owner\<rparr>"

definition VirtualObject_copy :: "nat \<Rightarrow> VirtualObject \<Rightarrow> VirtualObject" where
  "VirtualObject_copy owner other =
     \<lparr>vo_id = vo_id other, vo_status = vo_status other AND NOT VirtualObject_kCopyRequired,
      vo_fields = vo_fields other, vo_phi = vo_phi other,
      vo_object_state = vo_object_state other, vo_owner = owner\<rparr>"

definition VirtualObject_new_fields :: "NodeId \<Rightarrow> nat \<Rightarrow> nat \<Rightarrow> bool \<Rightarrow> VirtualObject" where
  "VirtualObject_new_fields nid owner field_number initialized =
     \<lparr>vo_id = nid,
      vo_status = VirtualObject_kTracked
                    OR (if initialized then VirtualObject_kInitialized else VirtualObject_kInitial),
      vo_fields = vec_resize field_number None [],
      vo_phi = vec_resize field_number False [],
      vo_object_state = None, vo_owner = owner\<rparr>"

definition GetField :: "VirtualObject \<Rightarrow> nat \<Rightarrow> NodePtr option" where
  "GetField obj offset = vec_at (vo_fields obj) offset"

definition IsCreatedPhi :: "VirtualObject \<Rightarrow> nat \<Rightarrow> bool option" where
  "IsCreatedPhi obj offset = vec_at (vo_phi obj) offset"

definition SetField :: "VirtualObject \<Rightarrow> nat \<Rightarrow> NodePtr \<Rightarrow> bool \<Rightarrow> VirtualObject option" where
  "SetField obj offset node created_phi =
     do { fs \<leftarrow> vec_set (vo_fields obj) offset node;
          ps \<leftarrow> vec_set (vo_phi obj) offset created_phi;
          Some (obj\<lparr>vo_fields := fs, vo_phi := ps\<rparr>) }"

definition IsTracked :: "VirtualObject \<Rightarrow> bool" where
  "IsTracked obj = (vo_status obj AND VirtualObject_kTracked \<noteq> 0)"

definition IsInitialized :: "VirtualObject \<Rightarrow> bool" where
  "IsInitialized obj = (vo_status obj AND VirtualObject_kInitialized \<noteq> 0)"

definition SetInitialized :: "VirtualObject \<Rightarrow> bool \<times> VirtualObject" where
  "SetInitialized obj =
     (let st = vo_status obj OR VirtualObject_kInitialized in (st \<noteq> 0, obj\<lparr>vo_status := st\<rparr>))"

definition field_count :: "VirtualObject \<Rightarrow> nat" where
  "field_count obj = length (vo_fields obj)"

definition ResizeFields :: "VirtualObject \<Rightarrow> nat \<Rightarrow> bool \<times> VirtualObject" where
  "ResizeFields obj n =
     (if n > length (vo_fields obj)
      then (True, obj\<lparr>vo_fields := vec_resize n None (vo_fields obj),
                       vo_phi := vec_resize n False (vo_phi obj)\<rparr>)
      else (False, obj))"

definition ClearAllFields :: "VirtualObject \<Rightarrow> VirtualObject option" where
  "ClearAllFields obj =
     for_each [0..<length (vo_fields obj)] (\<lambda>i ob. SetField ob i None False) obj"


definition VirtualObject_UpdateFrom :: "VirtualObject \<Rightarrow> VirtualObject \<Rightarrow> bool \<times> VirtualObject" where
  "VirtualObject_UpdateFrom this other =
     (let changed = (vo_status this \<noteq> vo_status other);
          this1 = this\<lparr>vo_status := vo_status other, vo_phi := vo_phi other\<rparr>
      in if length (vo_fields this1) \<noteq> length (vo_fields other)
         then (True, this1\<lparr>vo_fields := vo_fields other\<rparr>)
         else fold (\<lambda>i (changed, t).
                      if vo_fields t ! i \<noteq> vo_fields other ! i
                      then (True, t\<lparr>vo_fields := (vo_fields t)[i := vo_fields other ! i]\<rparr>)
                      else (changed, t))
                [0..<length (vo_fields this1)] (changed, this1))"

definition SetObjectState :: "VirtualObject \<Rightarrow> NodePtr \<Rightarrow> VirtualObject" where
  "SetObjectState obj node = obj\<lparr>vo_object_state := node\<rparr>"

definition GetObjectState :: "VirtualObject \<Rightarrow> NodePtr" where
  "GetObjectState obj = vo_object_state obj"

definition IsCopyRequired :: "VirtualObject \<Rightarrow> bool" where
  "IsCopyRequired obj = (vo_status obj AND VirtualObject_kCopyRequired \<noteq> 0)"

definition SetCopyRequired :: "VirtualObject \<Rightarrow> VirtualObject" where
  "SetCopyRequired obj = obj\<lparr>vo_status := vo_status obj OR VirtualObject_kCopyRequired\<rparr>"

definition NeedCopyForModification :: "VirtualObject \<Rightarrow> bool" where
  "NeedCopyForModification obj =
     (if \<not> IsCopyRequired obj \<or> \<not> IsInitialized obj then False else True)"

text \<open>
  The operations that the pass performs on one object, as data, to speak about all of them
  at once. \<open>OpUpdateFrom other\<close> is \<^verbatim>\<open>VirtualObject::UpdateFrom(other)\<close>.
\<close>

datatype ObjectOp =
    OpSetField nat NodePtr bool
  | OpSetInitialized
  | OpResizeFields nat
  | OpClearAllFields
  | OpSetObjectState NodePtr
  | OpSetCopyRequired
  | OpUpdateFrom VirtualObject

fun apply_op :: "ObjectOp \<Rightarrow> VirtualObject \<Rightarrow> VirtualObject option" where
  "apply_op (OpSetField offset node created_phi) obj = SetField obj offset node created_phi"
| "apply_op OpSetInitialized obj = Some (snd (SetInitialized obj))"
| "apply_op (OpResizeFields n) obj = Some (snd (ResizeFields obj n))"
| "apply_op OpClearAllFields obj = ClearAllFields obj"
| "apply_op (OpSetObjectState node) obj = Some (SetObjectState obj node)"
| "apply_op OpSetCopyRequired obj = Some (SetCopyRequired obj)"
| "apply_op (OpUpdateFrom other) obj = Some (snd (VirtualObject_UpdateFrom obj other))"

subsection \<open>VirtualState and the zone\<close>

text \<open>\<open>vs_info\<close> holds \<^verbatim>\<open>VirtualObject*\<close>: the address of an object in the zone, or null.\<close>

record VirtualState =
  vs_info :: "nat option list"
  vs_owner :: NodeId

record Zone =
  zone_objects :: "VirtualObject list"
  zone_states :: "VirtualState list"

definition new_object :: "Zone \<Rightarrow> VirtualObject \<Rightarrow> nat \<times> Zone" where
  "new_object z obj = (length (zone_objects z), z\<lparr>zone_objects := zone_objects z @ [obj]\<rparr>)"

definition new_state :: "Zone \<Rightarrow> VirtualState \<Rightarrow> nat \<times> Zone" where
  "new_state z st = (length (zone_states z), z\<lparr>zone_states := zone_states z @ [st]\<rparr>)"

definition object_at :: "Zone \<Rightarrow> nat \<Rightarrow> VirtualObject option" where
  "object_at z p = vec_at (zone_objects z) p"

definition state_at :: "Zone \<Rightarrow> nat \<Rightarrow> VirtualState option" where
  "state_at z p = vec_at (zone_states z) p"

definition put_object :: "Zone \<Rightarrow> nat \<Rightarrow> VirtualObject \<Rightarrow> Zone option" where
  "put_object z p obj = do { os \<leftarrow> vec_set (zone_objects z) p obj; Some (z\<lparr>zone_objects := os\<rparr>) }"

text \<open>The two constructors of \<^verbatim>\<open>VirtualState\<close>; the second copies every slot.\<close>

definition VirtualState_new :: "NodeId \<Rightarrow> nat \<Rightarrow> VirtualState" where
  "VirtualState_new owner n = \<lparr>vs_info = replicate n None, vs_owner = owner\<rparr>"

definition VirtualState_copy :: "NodeId \<Rightarrow> VirtualState \<Rightarrow> VirtualState" where
  "VirtualState_copy owner st = \<lparr>vs_info = vs_info st, vs_owner = owner\<rparr>"

definition VirtualState_size :: "Zone \<Rightarrow> nat \<Rightarrow> nat option" where
  "VirtualState_size z this = map_option (\<lambda>s. length (vs_info s)) (state_at z this)"

definition VirtualState_owner :: "Zone \<Rightarrow> nat \<Rightarrow> NodeId option" where
  "VirtualState_owner z this = map_option vs_owner (state_at z this)"

definition VirtualObjectFromAlias :: "Zone \<Rightarrow> nat \<Rightarrow> nat \<Rightarrow> nat option option" where
  "VirtualObjectFromAlias z this alias =
     do { s \<leftarrow> state_at z this; vec_at (vs_info s) alias }"

definition SetVirtualObject :: "Zone \<Rightarrow> nat \<Rightarrow> Alias \<Rightarrow> nat option \<Rightarrow> Zone option" where
  "SetVirtualObject z this alias obj =
     do { s \<leftarrow> state_at z this;
          info \<leftarrow> vec_set (vs_info s) alias obj;
          Some (z\<lparr>zone_states := (zone_states z)[this := s\<lparr>vs_info := info\<rparr>]\<rparr>) }"

definition VirtualState_Copy :: "Zone \<Rightarrow> nat \<Rightarrow> nat \<Rightarrow> Alias \<Rightarrow> (nat \<times> Zone) option" where
  "VirtualState_Copy z this obj alias =
     do { ob \<leftarrow> object_at z obj;
          if vo_owner ob = this then Some (obj, z)
          else do {
            let (new_obj, z1) = new_object z (VirtualObject_copy this ob);
            z2 \<leftarrow> SetVirtualObject z1 this alias (Some new_obj);
            Some (new_obj, z2) } }"

definition VirtualState_SetCopyRequired :: "Zone \<Rightarrow> nat \<Rightarrow> Zone option" where
  "VirtualState_SetCopyRequired z this =
     do { s \<leftarrow> state_at z this;
          for_each (vs_info s)
            (\<lambda>obj z. case obj of
                        None \<Rightarrow> Some z
                      | Some p \<Rightarrow> do { ob \<leftarrow> object_at z p; put_object z p (SetCopyRequired ob) })
            z }"

definition GetOrCreateTrackedVirtualObject ::
  "Zone \<Rightarrow> nat \<Rightarrow> Alias \<Rightarrow> NodeId \<Rightarrow> nat \<Rightarrow> bool \<Rightarrow> bool \<Rightarrow> (nat \<times> Zone) option" where
  "GetOrCreateTrackedVirtualObject z this alias nid field_number initialized force_copy =
     do { existing \<leftarrow> (if \<not> force_copy then VirtualObjectFromAlias z this alias else Some None);
          case existing of
            Some obj \<Rightarrow> Some (obj, z)
          | None \<Rightarrow> do {
              let (obj, z1) = new_object z (VirtualObject_new_fields nid this 0 initialized);
              z2 \<leftarrow> SetVirtualObject z1 this alias (Some obj);
              Some (obj, z2) } }"

text \<open>
  \<^verbatim>\<open>VirtualState::UpdateFrom\<close>: the loop body for one alias, on the pair of \<^verbatim>\<open>changed\<close> and
  the zone, then the function, which returns \<^verbatim>\<open>false\<close> after the loop.
\<close>

definition VirtualState_UpdateFrom_body ::
  "nat \<Rightarrow> nat \<Rightarrow> Alias \<Rightarrow> bool \<times> Zone \<Rightarrow> (bool \<times> Zone) option" where
  "VirtualState_UpdateFrom_body this from alias cz =
     (case cz of (changed, z) \<Rightarrow>
      do { ls \<leftarrow> VirtualObjectFromAlias z this alias;
           rs \<leftarrow> VirtualObjectFromAlias z from alias;
           if ls = rs \<or> rs = None then Some (changed, z)
           else (case ls of
               None \<Rightarrow> do {
                 r \<leftarrow> object_at z (the rs);
                 let (l, z1) = new_object z (VirtualObject_copy this r);
                 z2 \<leftarrow> SetVirtualObject z1 this alias (Some l);
                 Some (True, z2) }
             | Some l \<Rightarrow> do {
                 lo \<leftarrow> object_at z l;
                 r \<leftarrow> object_at z (the rs);
                 let (c, lo') = VirtualObject_UpdateFrom lo r;
                 z1 \<leftarrow> put_object z l lo';
                 Some (c \<or> changed, z1) }) })"

definition VirtualState_UpdateFrom_loop :: "Zone \<Rightarrow> nat \<Rightarrow> nat \<Rightarrow> (bool \<times> Zone) option" where
  "VirtualState_UpdateFrom_loop z this from =
     do { n \<leftarrow> VirtualState_size z this;
          for_each [0..<n] (VirtualState_UpdateFrom_body this from) (False, z) }"

definition VirtualState_UpdateFrom :: "Zone \<Rightarrow> nat \<Rightarrow> nat \<Rightarrow> (bool \<times> Zone) option" where
  "VirtualState_UpdateFrom z this from =
     (if from = this then Some (False, z)
      else do { (changed, z') \<leftarrow> VirtualState_UpdateFrom_loop z this from;
                Some (False, z') })"

subsection \<open>MergeCache and the analysis object\<close>

record MergeCache =
  mc_states :: "nat list"
  mc_objects :: "nat list"
  mc_fields :: "NodeId list"

definition MergeCache_new :: MergeCache where
  "MergeCache_new = \<lparr>mc_states = [], mc_objects = [], mc_fields = []\<rparr>"


record EscapeAnalysis =
  ea_status_analysis :: EscapeStatusAnalysis
  ea_virtual_states :: "nat option list"
  ea_replacements :: "NodePtr list"
  ea_cache :: "MergeCache option"
  ea_zone :: Zone
  ea_graph :: Graph

text \<open>The public queries of \<^verbatim>\<open>EscapeAnalysis\<close> guard the status table by its size.\<close>

definition EscapeAnalysis_IsVirtual :: "EscapeAnalysis \<Rightarrow> NodeId \<Rightarrow> bool option" where
  "EscapeAnalysis_IsVirtual ea node =
     (if node \<ge> GetStatusVectorSize (ea_status_analysis ea) then Some False
      else EscapeStatusAnalysis_IsVirtual (ea_status_analysis ea) node)"

definition EscapeAnalysis_IsEscaped :: "EscapeAnalysis \<Rightarrow> NodeId \<Rightarrow> bool option" where
  "EscapeAnalysis_IsEscaped ea node =
     (if node \<ge> GetStatusVectorSize (ea_status_analysis ea) then Some False
      else EscapeStatusAnalysis_IsEscaped (ea_status_analysis ea) node)"

definition EscapeAnalysis_GetReplacement :: "EscapeAnalysis \<Rightarrow> NodeId \<Rightarrow> NodePtr option" where
  "EscapeAnalysis_GetReplacement ea nid = GetReplacement (ea_replacements ea) nid"

subsection \<open>Copy on write\<close>

text \<open>
  Modelled from the spec: \<^verbatim>\<open>GetAlias\<close> is declared in \<^verbatim>\<open>escape-analysis.h\<close> (not among the
  sources); it reads the alias side table at the node's id.
\<close>

definition GetAlias :: "EscapeStatusAnalysis \<Rightarrow> NodeId \<Rightarrow> Alias option" where
  "GetAlias sa nid = vec_at (sa_aliases sa) nid"


text \<open>\<^verbatim>\<open>CopyForModificationAt(VirtualState* state, Node* node)\<close>\<close>

definition CopyForModificationAt_state ::
  "EscapeAnalysis \<Rightarrow> nat \<Rightarrow> NodeId \<Rightarrow> (nat \<times> EscapeAnalysis) option" where
  "CopyForModificationAt_state ea state node =
     do { st \<leftarrow> state_at (ea_zone ea) state;
          if vs_owner st \<noteq> node then do {
            let (ns, z) = new_state (ea_zone ea) (VirtualState_copy node st);
            vss \<leftarrow> vec_set (ea_virtual_states ea) node (Some ns);
            Some (ns, ea\<lparr>ea_zone := z, ea_virtual_states := vss\<rparr>) }
          else Some (state, ea) }"

text \<open>\<^verbatim>\<open>CopyForModificationAt(VirtualObject* obj, VirtualState* state, Node* node)\<close>\<close>

definition CopyForModificationAt ::
  "EscapeAnalysis \<Rightarrow> nat \<Rightarrow> nat \<Rightarrow> NodeId \<Rightarrow> (nat \<times> EscapeAnalysis) option" where
  "CopyForModificationAt ea obj state node =
     do { ob \<leftarrow> object_at (ea_zone ea) obj;
          if NeedCopyForModification ob then do {
            (state', ea1) \<leftarrow> CopyForModificationAt_state ea state node;
            alias \<leftarrow> GetAlias (ea_status_analysis ea1) (vo_id ob);
            (r, z) \<leftarrow> VirtualState_Copy (ea_zone ea1) state' obj alias;
            Some (r, ea1\<lparr>ea_zone := z\<rparr>) }
          else Some (obj, ea) }"

subsection \<open>EscapeStatusAnalysis: aliases and escape status\<close>


text \<open>\<^verbatim>\<open>status_[id] |= flags\<close> and \<^verbatim>\<open>status_[id] &= ~flags\<close>\<close>

definition status_or :: "EscapeStatusAnalysis \<Rightarrow> NodeId \<Rightarrow> 16 word \<Rightarrow> EscapeStatusAnalysis option" where
  "status_or sa nid flags =
     do { st \<leftarrow> vec_at (sa_status sa) nid;
          Some (sa\<lparr>sa_status := (sa_status sa)[nid := st OR flags]\<rparr>) }"

definition status_clear :: "EscapeStatusAnalysis \<Rightarrow> NodeId \<Rightarrow> 16 word \<Rightarrow> EscapeStatusAnalysis option" where
  "status_clear sa nid flags =
     do { st \<leftarrow> vec_at (sa_status sa) nid;
          Some (sa\<lparr>sa_status := (sa_status sa)[nid := st AND NOT flags]\<rparr>) }"





definition EnqueueForStatusAnalysis :: "EscapeStatusAnalysis \<Rightarrow> NodeId \<Rightarrow> EscapeStatusAnalysis option" where
  "EnqueueForStatusAnalysis sa node =
     do { st \<leftarrow> vec_at (sa_status sa) node;
          if \<not> (st AND kOnStack \<noteq> 0)
          then status_or (sa\<lparr>sa_status_stack := sa_status_stack sa @ [node]\<rparr>) node kOnStack
          else Some sa }"




definition IsDanglingEffectNode ::
  "EscapeStatusAnalysis \<Rightarrow> Graph \<Rightarrow> NodeId \<Rightarrow> (bool \<times> EscapeStatusAnalysis) option" where
  "IsDanglingEffectNode sa g node =
     do { st \<leftarrow> vec_at (sa_status sa) node;
          if st AND kDanglingComputed \<noteq> 0 then Some (st AND kDangling \<noteq> 0, sa)
          else do {
            opr \<leftarrow> node_operator g node;
            no_effect \<leftarrow>
              (if EffectInputCount opr = 0 \<or> EffectOutputCount opr = 0 then Some True
               else if EffectInputCount opr = 1
               then do { e \<leftarrow> GetEffectInput g node 0; oc \<leftarrow> node_opcode g e; Some (oc = kStart) }
               else Some False);
            if no_effect
            then do { sa1 \<leftarrow> status_or sa node kDanglingComputed; Some (False, sa1) }
            else do {
              r \<leftarrow> for_each_until (use_edges g node)
                     (\<lambda>edge u.
                        do { a \<leftarrow> vec_at (sa_aliases sa) (edge_from edge);
                             if a = kNotReachable then Some (None, u)
                             else do { e \<leftarrow> IsEffectEdge g edge;
                                       if e then Some (Some False, u) else Some (None, u) } })
                     ();
              case fst r of
                Some b \<Rightarrow> do { sa1 \<leftarrow> status_or sa node kDanglingComputed; Some (b, sa1) }
              | None \<Rightarrow> do { sa1 \<leftarrow> status_or sa node (kDanglingComputed OR kDangling);
                              Some (True, sa1) } } } }"

definition IsEffectBranchPoint_body ::
  "Graph \<Rightarrow> NodeId \<Rightarrow> Edge \<Rightarrow> nat \<times> EscapeStatusAnalysis
     \<Rightarrow> (bool option \<times> nat \<times> EscapeStatusAnalysis) option" where
  "IsEffectBranchPoint_body g node edge cs =
     (case cs of (count, sa) \<Rightarrow>
      do { a \<leftarrow> vec_at (sa_aliases sa) (edge_from edge);
           if a = kNotReachable then Some (None, count, sa)
           else do {
             e \<leftarrow> IsEffectEdge g edge;
             if e then do {
               oc \<leftarrow> node_opcode g (edge_from edge);
               (dangling, sa1) \<leftarrow>
                 (if oc = kLoadField \<or> oc = kLoadElement \<or> oc = kLoad
                  then IsDanglingEffectNode sa g (edge_from edge) else Some (False, sa));
               if dangling then Some (None, count, sa1)
               else if count + 1 > 1
               then do { sa2 \<leftarrow> status_or sa1 node (kBranchPointComputed OR kBranchPoint);
                         Some (Some True, count + 1, sa2) }
               else Some (None, count + 1, sa1) }
             else Some (None, count, sa) } })"

definition IsEffectBranchPoint ::
  "EscapeStatusAnalysis \<Rightarrow> Graph \<Rightarrow> NodeId \<Rightarrow> (bool \<times> EscapeStatusAnalysis) option" where
  "IsEffectBranchPoint sa g node =
     do { st \<leftarrow> vec_at (sa_status sa) node;
          if st AND kBranchPointComputed \<noteq> 0 then Some (st AND kBranchPoint \<noteq> 0, sa)
          else do {
            (r, count, sa1) \<leftarrow>
              for_each_until (use_edges g node) (IsEffectBranchPoint_body g node) (0, sa);
            case r of
              Some b \<Rightarrow> Some (b, sa1)
            | None \<Rightarrow> do { sa2 \<leftarrow> status_or sa1 node kBranchPointComputed; Some (False, sa2) } } }"
























subsection \<open>Merging virtual states at an EffectPhi\<close>


definition MergeCache_GetFields :: "Zone \<Rightarrow> MergeCache \<Rightarrow> nat \<Rightarrow> (NodePtr \<times> MergeCache) option" where
  "MergeCache_GetFields z c pos =
     do { front \<leftarrow> (case mc_objects c of [] \<Rightarrow> None | p # _ \<Rightarrow> object_at z p);
          rep0 \<leftarrow> (if pos \<ge> field_count front then Some None else GetField front pos);
          (rep, fs) \<leftarrow>
            for_each (mc_objects c)
              (\<lambda>p (rep, fs).
                 do { ob \<leftarrow> object_at z p;
                      if pos \<ge> field_count ob then Some (rep, fs)
                      else do { field \<leftarrow> GetField ob pos;
                                Some (if field \<noteq> rep then None else rep,
                                      case field of Some f \<Rightarrow> fs @ [f] | None \<Rightarrow> fs) } })
              (rep0, []);
          Some (rep, c\<lparr>mc_fields := fs\<rparr>) }"

text \<open>
  \<^verbatim>\<open>fields\<close> starts as the largest \<^verbatim>\<open>size_t\<close>, above every vector size: \<open>None\<close> here,
  and \<open>min_fields\<close> is \<^verbatim>\<open>std::min\<close>.
\<close>

fun min_fields :: "nat \<Rightarrow> nat option \<Rightarrow> nat option" where
  "min_fields n None = Some n"
| "min_fields n (Some m) = Some (min n m)"

text \<open>
  The first loop of \<^verbatim>\<open>MergeFrom\<close> for one alias: the objects of the in-states, whether
  the merge object is one of them, and the least field count.
\<close>

definition MergeFrom_collect ::
  "Zone \<Rightarrow> nat list \<Rightarrow> nat option \<Rightarrow> Alias \<Rightarrow> (nat list \<times> bool \<times> nat option) option" where
  "MergeFrom_collect z sts mergeObject alias =
     for_each sts
       (\<lambda>state (objs, copy_merge_object, fields).
          do { obj \<leftarrow> VirtualObjectFromAlias z state alias;
               case obj of
                 None \<Rightarrow> Some (objs, copy_merge_object, fields)
               | Some p \<Rightarrow> do {
                   ob \<leftarrow> object_at z p;
                   Some (objs @ [p], copy_merge_object \<or> mergeObject = Some p,
                         min_fields (field_count ob) fields) } })
       ([], False, None)"

text \<open>
  The loop over the value inputs of the phi \<open>rep\<close> that an earlier merge created for a
  field: an input that differs from the cached field is replaced.
\<close>

definition MergeFrom_phi_inputs ::
  "Graph \<Rightarrow> NodeId \<Rightarrow> NodeId list \<Rightarrow> nat \<Rightarrow> bool \<Rightarrow> (bool \<times> Graph) option" where
  "MergeFrom_phi_inputs g rep fs value_input_count changed =
     for_each [0..<value_input_count]
       (\<lambda>n (ch, g).
          do { old \<leftarrow> GetValueInput g rep n;
               f \<leftarrow> vec_at fs n;
               if old \<noteq> f
               then do { g1 \<leftarrow> ReplaceValueInput g rep f n; Some (True, g1) }
               else Some (ch, g) })
       (changed, g)"

text \<open>The body of the loop over the fields \<open>i < fields\<close> of the merge object \<open>mo\<close>.\<close>

definition MergeFrom_field ::
  "nat \<Rightarrow> NodeId \<Rightarrow> nat \<Rightarrow> nat \<Rightarrow> bool \<times> Zone \<times> Graph \<times> MergeCache
     \<Rightarrow> (bool \<times> Zone \<times> Graph \<times> MergeCache) option" where
  "MergeFrom_field mo control arity i s =
     (case s of (changed, z, g, c) \<Rightarrow>
      do { (r, c1) \<leftarrow> MergeCache_GetFields z c i;
           mob \<leftarrow> object_at z mo;
           case r of
             Some field \<Rightarrow> do {
               ch \<leftarrow> (if changed then Some True
                      else do { cur \<leftarrow> GetField mob i; Some (cur \<noteq> Some field) });
               mob1 \<leftarrow> SetField mob i (Some field) False;
               z1 \<leftarrow> put_object z mo mob1;
               Some (ch, z1, g, c1) }
           | None \<Rightarrow>
               let value_input_count = length (mc_fields c1) in
               if length (mc_fields c1) = arity then do {
                 rep \<leftarrow> GetField mob i;
                 created \<leftarrow> (if rep = None then Some False else IsCreatedPhi mob i);
                 if rep = None \<or> \<not> created then do {
                   let c2 = c1\<lparr>mc_fields := mc_fields c1 @ [control]\<rparr>;
                   let (phi, g1) = NewNode g (Phi value_input_count)
                                     (take (value_input_count + 1) (mc_fields c2));
                   mob1 \<leftarrow> SetField mob i (Some phi) True;
                   z1 \<leftarrow> put_object z mo mob1;
                   Some (True, z1, g1, c2) }
                 else do {
                   oc \<leftarrow> node_opcode g (the rep);
                   if oc \<noteq> kPhi then None
                   else do {
                     (ch, g1) \<leftarrow> MergeFrom_phi_inputs g (the rep) (mc_fields c1)
                                   value_input_count changed;
                     Some (ch, z, g1, c1) } } }
               else do {
                 cur \<leftarrow> GetField mob i;
                 mob1 \<leftarrow> SetField mob i None False;
                 z1 \<leftarrow> put_object z mo mob1;
                 Some (changed \<or> cur \<noteq> None, z1, g, c1) } })"

text \<open>
  The body of the loop over the aliases. The call of \<^verbatim>\<open>GetOrCreateTrackedVirtualObject\<close>
  passes \<^verbatim>\<open>IsInitialized()\<close> where the function has \<^verbatim>\<open>field_number\<close> and \<^verbatim>\<open>fields\<close> where
  it has \<^verbatim>\<open>initialized\<close>, as the source does: the conversions are \<open>bool \<rightarrow> size_t\<close> and
  \<open>size_t \<rightarrow> bool\<close>.
\<close>

definition MergeFrom_alias ::
  "nat \<Rightarrow> NodeId \<Rightarrow> nat \<Rightarrow> Alias \<Rightarrow> bool \<times> Zone \<times> Graph \<times> MergeCache
     \<Rightarrow> (bool \<times> Zone \<times> Graph \<times> MergeCache) option" where
  "MergeFrom_alias this control arity alias s =
     (case s of (changed, z, g, c) \<Rightarrow>
      do { mergeObject \<leftarrow> VirtualObjectFromAlias z this alias;
           (objs, copy_merge_object, fields) \<leftarrow>
             MergeFrom_collect z (mc_states c) mergeObject alias;
           let c1 = c\<lparr>mc_objects := objs\<rparr>;
           let changed1 = (changed \<or> copy_merge_object);
           if length objs = length (mc_states c1) then do {
             front \<leftarrow> (case objs of [] \<Rightarrow> None | p # _ \<Rightarrow> object_at z p);
             f \<leftarrow> fields;
             (mo, z1) \<leftarrow> GetOrCreateTrackedVirtualObject z this alias (vo_id front)
                           (if IsInitialized front then 1 else 0) (f \<noteq> 0) copy_merge_object;
             mob \<leftarrow> object_at z1 mo;
             let (resized, mob1) = ResizeFields mob f;
             z2 \<leftarrow> put_object z1 mo mob1;
             for_each [0..<f] (MergeFrom_field mo control arity) (resized \<or> changed1, z2, g, c1) }
           else do {
             z1 \<leftarrow> SetVirtualObject z this alias None;
             Some (changed1 \<or> mergeObject \<noteq> None, z1, g, c1) } })"

definition MergeFrom ::
  "Zone \<Rightarrow> Graph \<Rightarrow> MergeCache \<Rightarrow> nat \<Rightarrow> NodeId \<Rightarrow> nat
     \<Rightarrow> (bool \<times> Zone \<times> Graph \<times> MergeCache) option" where
  "MergeFrom z g c this control arity =
     (if \<not> length (mc_states c) > 0 then None
      else do { n \<leftarrow> VirtualState_size z this;
                for_each [0..<n] (MergeFrom_alias this control arity) (False, z, g, c) })"

text \<open>
  For the merge at one alias: the objects that the in-states hold there, whether every
  in-state holds one, the least field count among them, and the field count that
  \<^verbatim>\<open>MergeFrom\<close> leaves. \<^verbatim>\<open>ResizeFields\<close> only grows a vector, so an object that the merged
  state already held, and that no in-state holds, keeps a larger count.
\<close>

definition contributors :: "Zone \<Rightarrow> nat list \<Rightarrow> Alias \<Rightarrow> nat list" where
  "contributors z sts a =
     concat (map (\<lambda>s. case VirtualObjectFromAlias z s a of Some (Some p) \<Rightarrow> [p] | _ \<Rightarrow> []) sts)"

definition all_present :: "Zone \<Rightarrow> nat list \<Rightarrow> Alias \<Rightarrow> bool" where
  "all_present z sts a = (\<forall>s \<in> set sts. \<exists>p. VirtualObjectFromAlias z s a = Some (Some p))"

definition count_at :: "Zone \<Rightarrow> nat \<Rightarrow> nat" where
  "count_at z p = (case object_at z p of Some ob \<Rightarrow> field_count ob | None \<Rightarrow> 0)"

definition min_count :: "Zone \<Rightarrow> nat list \<Rightarrow> Alias \<Rightarrow> nat" where
  "min_count z sts a = Min (count_at z ` set (contributors z sts a))"

definition merged_field_count :: "Zone \<Rightarrow> nat \<Rightarrow> nat list \<Rightarrow> Alias \<Rightarrow> nat" where
  "merged_field_count z this sts a =
     (case VirtualObjectFromAlias z this a of
        Some (Some q) \<Rightarrow>
          if q \<in> set (contributors z sts a) then min_count z sts a
          else max (count_at z q) (min_count z sts a)
      | _ \<Rightarrow> min_count z sts a)"

text \<open>
  Well-formedness of the zone for the states \<open>ss\<close>: every object address in a slot is
  allocated, and no object stands at two different aliases.
\<close>

definition zone_separated :: "Zone \<Rightarrow> nat list \<Rightarrow> bool" where
  "zone_separated z ss =
     ((\<forall>s \<in> set ss. \<forall>a p. VirtualObjectFromAlias z s a = Some (Some p)
          \<longrightarrow> p < length (zone_objects z))
      \<and> (\<forall>s \<in> set ss. \<forall>s' \<in> set ss. \<forall>a b p.
            VirtualObjectFromAlias z s a = Some (Some p) \<longrightarrow>
            VirtualObjectFromAlias z s' b = Some (Some p) \<longrightarrow> a = b))"

text \<open>
  Two zones with the same states that differ only in the object at \<open>mo\<close>, which keeps its
  field count.
\<close>

definition same_zone_but :: "nat \<Rightarrow> Zone \<Rightarrow> Zone \<Rightarrow> bool" where
  "same_zone_but mo z z' =
     (zone_states z' = zone_states z
      \<and> length (zone_objects z') = length (zone_objects z)
      \<and> (\<forall>p. p \<noteq> mo \<longrightarrow> object_at z' p = object_at z p)
      \<and> count_at z' mo = count_at z mo)"

subsection \<open>EscapeAnalysis: virtual states and replacements\<close>




definition state_of :: "EscapeAnalysis \<Rightarrow> NodeId \<Rightarrow> nat option" where
  "state_of ea node = do { st \<leftarrow> vec_at (ea_virtual_states ea) node; st }"

definition ForwardVirtualState :: "EscapeAnalysis \<Rightarrow> NodeId \<Rightarrow> EscapeAnalysis option" where
  "ForwardVirtualState ea node =
     do { opr \<leftarrow> node_operator (ea_graph ea) node;
          if EffectInputCount opr \<noteq> 1 then None
          else do {
            sa1 \<leftarrow> (if opcode opr \<noteq> kLoadField \<and> opcode opr \<noteq> kLoadElement \<and> opcode opr \<noteq> kLoad
                    then do { (d, sa1) \<leftarrow> IsDanglingEffectNode (ea_status_analysis ea) (ea_graph ea) node;
                              if d then None else Some sa1 }
                    else Some (ea_status_analysis ea));
            effect \<leftarrow> GetEffectInput (ea_graph ea) node 0;
            in_state \<leftarrow> state_of ea effect;
            own \<leftarrow> vec_at (ea_virtual_states ea) node;
            case own of
              Some st \<Rightarrow> do {
                (_, z) \<leftarrow> VirtualState_UpdateFrom (ea_zone ea) st in_state;
                Some (ea\<lparr>ea_status_analysis := sa1, ea_zone := z\<rparr>) }
            | None \<Rightarrow> do {
                vss \<leftarrow> vec_set (ea_virtual_states ea) node (Some in_state);
                (bp, sa2) \<leftarrow> IsEffectBranchPoint sa1 (ea_graph ea) effect;
                z \<leftarrow> (if bp \<or> FrameStateInputCount opr > 0
                       then VirtualState_SetCopyRequired (ea_zone ea) in_state
                       else Some (ea_zone ea));
                Some (ea\<lparr>ea_status_analysis := sa2, ea_virtual_states := vss, ea_zone := z\<rparr>) } } }"




text \<open>
  \<^verbatim>\<open>ProcessAllocation\<close>, in two parts: up to the copy of a state that an EffectPhi owns,
  and from the \<^verbatim>\<open>NumberMatcher\<close> on (\<open>ProcessAllocation_create\<close>), where the object is
  made and installed. The constructor's \<^verbatim>\<open>size_t field_number\<close> receives the double
  \<^verbatim>\<open>size.Value() / kPointerSize\<close>.
\<close>

definition ProcessAllocation_create ::
  "nat \<Rightarrow> EscapeAnalysis \<Rightarrow> NodeId \<Rightarrow> nat \<Rightarrow> Alias \<Rightarrow> EscapeAnalysis option" where
  "ProcessAllocation_create kPointerSizeLog2 ea node state alias =
     do { sz \<leftarrow> InputAt (ea_graph ea) node 0;
          size \<leftarrow> NumberMatcher (ea_graph ea) sz;
          _ \<leftarrow> not_machine_constant (ea_graph ea) sz;
          obj \<leftarrow> (case size of
                    Some v \<Rightarrow> do {
                      field_number \<leftarrow>
                        double_to_size_t kPointerSizeLog2
                          (double_div v (kPointerSize kPointerSizeLog2));
                      Some (VirtualObject_new_fields node state field_number False) }
                  | None \<Rightarrow> Some (VirtualObject_new node state));
          let (p, z) = new_object (ea_zone ea) obj;
          z1 \<leftarrow> SetVirtualObject z state alias (Some p);
          Some (ea\<lparr>ea_zone := z1\<rparr>) }"

definition ProcessAllocation :: "nat \<Rightarrow> EscapeAnalysis \<Rightarrow> NodeId \<Rightarrow> EscapeAnalysis option" where
  "ProcessAllocation kPointerSizeLog2 ea node =
     do { oc \<leftarrow> node_opcode (ea_graph ea) node;
          if oc \<noteq> kAllocate then None
          else do {
            ea1 \<leftarrow> ForwardVirtualState ea node;
            state \<leftarrow> state_of ea1 node;
            alias \<leftarrow> GetAlias (ea_status_analysis ea1) node;
            existing \<leftarrow> VirtualObjectFromAlias (ea_zone ea1) state alias;
            if existing \<noteq> None then Some ea1
            else do {
              owner \<leftarrow> VirtualState_owner (ea_zone ea1) state;
              ooc \<leftarrow> node_opcode (ea_graph ea1) owner;
              (state1, ea2) \<leftarrow> (if ooc = kEffectPhi then CopyForModificationAt_state ea1 state node
                                else Some (state, ea1));
              ProcessAllocation_create kPointerSizeLog2 ea2 node state1 alias } } }"



























subsection \<open>Notions for the properties of a whole run\<close>

text \<open>The status of a node has both Tracked and Escaped.\<close>

definition escaped_tracked :: "EscapeStatusAnalysis \<Rightarrow> NodeId \<Rightarrow> bool" where
  "escaped_tracked sa n =
     (n < length (sa_status sa) \<and> bit (sa_status sa ! n) 0 \<and> bit (sa_status sa ! n) 1)"

text \<open>
  An update of the status analysis that keeps what is known of node \<open>n\<close>: the status
  table and the work list only grow, the aliases stay, and the Tracked and Escaped bits of
  \<open>n\<close> stay as they are or are both set.
\<close>

definition keeps :: "NodeId \<Rightarrow> EscapeStatusAnalysis \<Rightarrow> EscapeStatusAnalysis \<Rightarrow> bool" where
  "keeps n sa sa' =
     (length (sa_status sa) \<le> length (sa_status sa')
      \<and> set (sa_status_stack sa) \<subseteq> set (sa_status_stack sa')
      \<and> sa_aliases sa' = sa_aliases sa
      \<and> sa_next_free_alias sa' = sa_next_free_alias sa
      \<and> (n < length (sa_status sa) \<longrightarrow>
           escaped_tracked sa' n
           \<or> (bit (sa_status sa' ! n) 0 = bit (sa_status sa ! n) 0
              \<and> bit (sa_status sa' ! n) 1 = bit (sa_status sa ! n) 1)))"




text \<open>The postcondition of a computation that may fail: it holds of every result.\<close>

definition ensures :: "'a option \<Rightarrow> ('a \<Rightarrow> bool) \<Rightarrow> bool" where
  "ensures m Q = (\<forall>r. m = Some r \<longrightarrow> Q r)"






section \<open>Example inputs\<close>

definition ea0 :: EscapeAnalysis where
  "ea0 = \<lparr>ea_status_analysis = \<lparr>sa_stack = [], sa_status = [kTracked, kTracked OR kEscaped], sa_next_free_alias = 0,
            sa_status_stack = [], sa_aliases = []\<rparr>,
          ea_virtual_states = [], ea_replacements = [None, Some 0], ea_cache = None,
          ea_zone = \<lparr>zone_objects = [], zone_states = []\<rparr>,
          ea_graph = \<lparr>g_nodes = [], graph_start = 0, graph_end = 0\<rparr>\<rparr>"

definition sa0 :: EscapeStatusAnalysis where
  "sa0 = \<lparr>sa_stack = [], sa_status = [kUnknown, kOnStack], sa_next_free_alias = 0,
          sa_status_stack = [], sa_aliases = []\<rparr>"

definition zone1 :: Zone where
  "zone1 = \<lparr>zone_objects = [VirtualObject_new_fields 5 1 1 False],
            zone_states = [VirtualState_new 10 1, \<lparr>vs_info = [Some 0], vs_owner = 11\<rparr>]\<rparr>"

definition zone1' :: Zone where
  "zone1' = \<lparr>zone_objects = [VirtualObject_new_fields 5 1 1 False, VirtualObject_new_fields 5 0 1 False],
            zone_states = [\<lparr>vs_info = [Some 1], vs_owner = 10\<rparr>, \<lparr>vs_info = [Some 0], vs_owner = 11\<rparr>]\<rparr>"

definition example_object :: "8 word \<Rightarrow> nat \<Rightarrow> VirtualObject" where
  "example_object st owner =
     \<lparr>vo_id = 1, vo_status = st, vo_fields = [None], vo_phi = [False],
      vo_object_state = None, vo_owner = owner\<rparr>"

definition example_analysis :: "VirtualObject \<Rightarrow> EscapeAnalysis" where
  "example_analysis ob =
     \<lparr>ea_status_analysis =
        \<lparr>sa_stack = [], sa_status = [kUnknown, kUnknown, kUnknown], sa_next_free_alias = 1,
         sa_status_stack = [],
         sa_aliases = [kUntrackable, 0, kUntrackable]\<rparr>,
      ea_virtual_states = [None, Some 0, Some 1],
      ea_replacements = [None, None, None],
      ea_cache = Some MergeCache_new,
      ea_zone = \<lparr>zone_objects = [ob],
                 zone_states = [\<lparr>vs_info = [Some 0], vs_owner = 1\<rparr>,
                                \<lparr>vs_info = [Some 0], vs_owner = 2\<rparr>]\<rparr>,
      ea_graph = \<lparr>g_nodes = [], graph_start = 0, graph_end = 0\<rparr>\<rparr>"

definition plain_op :: "IrOpcode \<Rightarrow> Operator" where
  "plain_op oc = \<lparr>opcode = oc, ValueInputCount = 0, ContextInputCount = 0,
      FrameStateInputCount = 0, EffectInputCount = 0, ControlInputCount = 0,
      EffectOutputCount = 0, op_parameter = NoParameter\<rparr>"

definition alloc_graph :: "Operator \<Rightarrow> Graph" where
  "alloc_graph size_op =
     \<lparr>g_nodes =
        [\<lparr>node_op = (plain_op kStart)\<lparr>EffectOutputCount := 1\<rparr>, node_inputs = []\<rparr>,
         \<lparr>node_op = size_op, node_inputs = []\<rparr>,
         \<lparr>node_op = (plain_op kAllocate)\<lparr>ValueInputCount := 1, EffectInputCount := 1,
                       ControlInputCount := 1, EffectOutputCount := 1\<rparr>,
          node_inputs = [1, 0, 0]\<rparr>,
         \<lparr>node_op = (plain_op kEnd)\<lparr>ControlInputCount := 1\<rparr>, node_inputs = [2]\<rparr>],
      graph_start = 0, graph_end = 3\<rparr>"

definition number_constant :: "real \<Rightarrow> Operator" where
  "number_constant v = (plain_op kNumberConstant)\<lparr>op_parameter := NumberValue (Finite v)\<rparr>"

definition at_allocate :: "Graph \<Rightarrow> EscapeAnalysis" where
  "at_allocate g =
     \<lparr>ea_status_analysis =
        \<lparr>sa_stack = [], sa_status = [kUnknown, kUnknown, kUnknown, kUnknown],
         sa_next_free_alias = 1, sa_status_stack = [],
         sa_aliases = [kUntrackable, kUntrackable, 0, kUntrackable]\<rparr>,
      ea_virtual_states = [Some 0, None, None, None],
      ea_replacements = [None, None, None, None],
      ea_cache = Some MergeCache_new,
      ea_zone = \<lparr>zone_objects = [], zone_states = [VirtualState_new 0 1]\<rparr>,
      ea_graph = g\<rparr>"

definition forwarded :: "Graph \<Rightarrow> EscapeAnalysis" where
  "forwarded g =
     (at_allocate g)
       \<lparr>ea_status_analysis :=
          (ea_status_analysis (at_allocate g))
            \<lparr>sa_status := [kBranchPointComputed, kUnknown, kDanglingComputed, kUnknown]\<rparr>,
        ea_virtual_states := [Some 0, None, Some 0, None]\<rparr>"

definition allocated :: "Graph \<Rightarrow> VirtualObject \<Rightarrow> EscapeAnalysis" where
  "allocated g ob =
     (forwarded g)
       \<lparr>ea_zone := \<lparr>zone_objects = [ob],
                    zone_states = [\<lparr>vs_info = [Some 0], vs_owner = 0\<rparr>]\<rparr>\<rparr>"

definition merge_object :: "NodePtr list \<Rightarrow> nat \<Rightarrow> VirtualObject" where
  "merge_object fs owner =
     \<lparr>vo_id = 1, vo_status = VirtualObject_kTracked, vo_fields = fs,
      vo_phi = map (\<lambda>_. False) fs, vo_object_state = None, vo_owner = owner\<rparr>"

definition merge_zone :: "nat option \<Rightarrow> Zone" where
  "merge_zone prior =
     \<lparr>zone_objects = [merge_object [None, None, None] 0, merge_object [None, None] 1],
      zone_states = [\<lparr>vs_info = [prior], vs_owner = 10\<rparr>,
                     \<lparr>vs_info = [Some 1], vs_owner = 11\<rparr>]\<rparr>"

definition merge_cache :: MergeCache where
  "merge_cache = \<lparr>mc_states = [1], mc_objects = [], mc_fields = []\<rparr>"

definition no_graph :: Graph where
  "no_graph = \<lparr>g_nodes = [], graph_start = 0, graph_end = 0\<rparr>"

definition merged_zone :: Zone where
  "merged_zone =
     \<lparr>zone_objects = [merge_object [None, None, None] 0, merge_object [None, None] 1,
         (merge_object [None, None] 0)
           \<lparr>vo_status := VirtualObject_kTracked OR VirtualObject_kInitialized\<rparr>],
      zone_states = [\<lparr>vs_info = [Some 2], vs_owner = 10\<rparr>,
                     \<lparr>vs_info = [Some 1], vs_owner = 11\<rparr>]\<rparr>"







section \<open>Flag words\<close>

lemma test_kTracked:
  "(w AND kTracked \<noteq> 0) = bit w 0" "(w AND kTracked = 0) = (\<not> bit w 0)"
  unfolding kTracked_def by (simp_all only: and_exp_eq_0_iff_not_bit not_not)

lemma test_kEscaped:
  "(w AND kEscaped \<noteq> 0) = bit w 1" "(w AND kEscaped = 0) = (\<not> bit w 1)"
  unfolding kEscaped_def by (simp_all only: and_exp_eq_0_iff_not_bit not_not)

lemma test_kOnStack:
  "(w AND kOnStack \<noteq> 0) = bit w 2" "(w AND kOnStack = 0) = (\<not> bit w 2)"
  unfolding kOnStack_def by (simp_all only: and_exp_eq_0_iff_not_bit not_not)

lemma test_kVisited:
  "(w AND kVisited \<noteq> 0) = bit w 3" "(w AND kVisited = 0) = (\<not> bit w 3)"
  unfolding kVisited_def by (simp_all only: and_exp_eq_0_iff_not_bit not_not)

lemma test_kDanglingComputed:
  "(w AND kDanglingComputed \<noteq> 0) = bit w 4" "(w AND kDanglingComputed = 0) = (\<not> bit w 4)"
  unfolding kDanglingComputed_def by (simp_all only: and_exp_eq_0_iff_not_bit not_not)

lemma test_kDangling:
  "(w AND kDangling \<noteq> 0) = bit w 5" "(w AND kDangling = 0) = (\<not> bit w 5)"
  unfolding kDangling_def by (simp_all only: and_exp_eq_0_iff_not_bit not_not)

lemma test_kBranchPointComputed:
  "(w AND kBranchPointComputed \<noteq> 0) = bit w 6"
  "(w AND kBranchPointComputed = 0) = (\<not> bit w 6)"
  unfolding kBranchPointComputed_def by (simp_all only: and_exp_eq_0_iff_not_bit not_not)

lemma test_kBranchPoint:
  "(w AND kBranchPoint \<noteq> 0) = bit w 7" "(w AND kBranchPoint = 0) = (\<not> bit w 7)"
  unfolding kBranchPoint_def by (simp_all only: and_exp_eq_0_iff_not_bit not_not)

lemma test_kInQueue:
  "(w AND kInQueue \<noteq> 0) = bit w 8" "(w AND kInQueue = 0) = (\<not> bit w 8)"
  unfolding kInQueue_def by (simp_all only: and_exp_eq_0_iff_not_bit not_not)

lemma test_entry:
  "(w AND (kTracked OR kEscaped) \<noteq> 0) = (bit w 0 \<or> bit w 1)"
  "(w AND (kTracked OR kEscaped) = 0) = (\<not> bit w 0 \<and> \<not> bit w 1)"
  by (simp_all add: bit.conj_disj_distrib or_eq_0_iff test_kTracked test_kEscaped)

lemma bit_kTracked: "bit kTracked n = (n = 0)"
  unfolding kTracked_def by (auto simp only: bit_exp_iff possible_bit_word len_num1 len_bit0)

lemma bit_kEscaped: "bit kEscaped n = (n = 1)"
  unfolding kEscaped_def by (auto simp only: bit_exp_iff possible_bit_word len_num1 len_bit0)

lemma bit_kOnStack: "bit kOnStack n = (n = 2)"
  unfolding kOnStack_def by (auto simp only: bit_exp_iff possible_bit_word len_num1 len_bit0)

lemma bit_kVisited: "bit kVisited n = (n = 3)"
  unfolding kVisited_def by (auto simp only: bit_exp_iff possible_bit_word len_num1 len_bit0)

lemma bit_kDanglingComputed: "bit kDanglingComputed n = (n = 4)"
  unfolding kDanglingComputed_def
  by (auto simp only: bit_exp_iff possible_bit_word len_num1 len_bit0)

lemma bit_kDangling: "bit kDangling n = (n = 5)"
  unfolding kDangling_def by (auto simp only: bit_exp_iff possible_bit_word len_num1 len_bit0)

lemma bit_kBranchPointComputed: "bit kBranchPointComputed n = (n = 6)"
  unfolding kBranchPointComputed_def
  by (auto simp only: bit_exp_iff possible_bit_word len_num1 len_bit0)

lemma bit_kBranchPoint: "bit kBranchPoint n = (n = 7)"
  unfolding kBranchPoint_def by (auto simp only: bit_exp_iff possible_bit_word len_num1 len_bit0)

lemma bit_kInQueue: "bit kInQueue n = (n = 8)"
  unfolding kInQueue_def by (auto simp only: bit_exp_iff possible_bit_word len_num1 len_bit0)

lemma bit_kUnknown: "bit kUnknown n = False"
  by (simp add: kUnknown_def)

lemmas flag_simps =
  test_kTracked test_kEscaped test_kOnStack test_kVisited test_kDanglingComputed test_kDangling
  test_kBranchPointComputed test_kBranchPoint test_kInQueue test_entry bit_kTracked bit_kEscaped bit_kOnStack bit_kVisited
  bit_kDanglingComputed bit_kDangling bit_kBranchPointComputed bit_kBranchPoint bit_kInQueue
  bit_kUnknown bit_or_iff bit_and_iff bit_not_iff

section \<open>Replacement resolution\<close>

lemma replacement_edges_finite: "finite (replacement_edges replacements)"
proof -
  have "replacement_edges replacements
          \<subseteq> (\<lambda>n. (n, the (replacements ! n))) ` {..<length replacements}"
    by (auto simp: replacement_edges_def replacement_def image_iff split: if_splits)
  then show ?thesis
    by (rule finite_subset) simp
qed

lemma ResolveReplacement_fixed:
  assumes "ResolveReplacement replacements n = Some m"
  shows "replacement replacements m = None"
  by (rule ResolveReplacement.raw_induct
        [where P = "\<lambda>r n m. replacement r m = None", OF _ assms])
     (auto split: option.splits)

lemma ResolveReplacement_stop:
  "replacement replacements m = None \<Longrightarrow> ResolveReplacement replacements m = Some m"
  by (subst ResolveReplacement.simps) simp

lemma earlier_acyclic:
  assumes "\<And>n m. replacement replacements n = Some m \<Longrightarrow> m < n"
  shows "acyclic (replacement_edges replacements)"
proof -
  have "replacement_edges replacements \<subseteq> {(n, m). m < n}"
    using assms by (auto simp: replacement_edges_def)
  moreover have "acyclic {(n :: nat, m). m < n}"
  proof -
    have "wf ({(m :: nat, n). m < n})" by (rule wf_less)
    then have "acyclic ({(m :: nat, n). m < n})" by (rule wf_acyclic)
    then have "acyclic (({(m :: nat, n). m < n})\<inverse>)" by (simp only: acyclic_converse)
    moreover have "({(m :: nat, n). m < n})\<inverse> = {(n, m). m < n}" by auto
    ultimately show ?thesis by simp
  qed
  ultimately show ?thesis by (rule acyclic_subset [rotated])
qed

text \<open>
  C5. Replacement resolution is idempotent: resolving the result of \<open>resolve n\<close> again
  gives the same node. Where the walk from \<open>n\<close> does not return (a cyclic table) both
  sides are the non-returning computation.
\<close>

theorem ResolveReplacement_idempotent:
  "Option.bind (ResolveReplacement replacements n) (ResolveReplacement replacements)
     = ResolveReplacement replacements n"
proof (cases "ResolveReplacement replacements n")
  case None
  then show ?thesis by simp
next
  case (Some m)
  then have "ResolveReplacement replacements m = Some m"
    by (intro ResolveReplacement_stop ResolveReplacement_fixed)
  with Some show ?thesis by simp
qed

text \<open>
  C6. On a replacement table without a cycle, \<open>resolve n\<close> terminates for every
  node \<open>n\<close>: the walk returns a node.
\<close>

theorem ResolveReplacement_terminates:
  assumes "acyclic (replacement_edges replacements)"
  shows "\<exists>m. ResolveReplacement replacements n = Some m"
proof -
  have "wf ((replacement_edges replacements)\<inverse>)"
    using replacement_edges_finite assms by (rule finite_acyclic_wf_converse)
  then show ?thesis
  proof (induction n rule: wf_induct_rule)
    case (less n)
    show ?case
    proof (cases "replacement replacements n")
      case None
      then show ?thesis by (simp add: ResolveReplacement_stop)
    next
      case (Some rep)
      then have "(rep, n) \<in> (replacement_edges replacements)\<inverse>"
        by (simp add: replacement_edges_def)
      then obtain m where "ResolveReplacement replacements rep = Some m"
        using less.IH by blast
      with Some show ?thesis
        by (subst ResolveReplacement.simps) simp
    qed
  qed
qed

theorem ResolveReplacement_terminates_witness:
  "acyclic (replacement_edges [None, Some 0, Some (Suc 0)])
   \<and> ResolveReplacement [None, Some 0, Some (Suc 0)] 2 = Some 0"
proof -
  have a: "acyclic (replacement_edges [None, Some 0, Some (Suc 0)])"
    by (rule earlier_acyclic)
       (auto simp: replacement_def nth_Cons split: if_splits nat.splits)
  from ResolveReplacement_terminates [OF a, of 2] obtain m
    where m: "ResolveReplacement [None, Some 0, Some (Suc 0)] 2 = Some m" ..
  have "ResolveReplacement [None, Some 0, Some (Suc 0)] 2 = Some 0"
    by (simp add: ResolveReplacement.simps replacement_def)
  with a m show ?thesis by simp
qed

section \<open>Virtual objects, the status table and the queries\<close>

lemma vo_flag_tests:
  "(w AND VirtualObject_kTracked \<noteq> 0) = bit w 0"
  "(w AND VirtualObject_kInitialized \<noteq> 0) = bit w 1"
  "(w AND VirtualObject_kCopyRequired \<noteq> 0) = bit w 2"
  unfolding VirtualObject_kTracked_def VirtualObject_kInitialized_def VirtualObject_kCopyRequired_def
  by (simp_all only: and_exp_eq_0_iff_not_bit not_not)

lemma bit_vo_flags:
  "bit VirtualObject_kTracked n = (n = 0)"
  "bit VirtualObject_kInitialized n = (n = 1)"
  "bit VirtualObject_kCopyRequired n = (n = 2)"
  "bit VirtualObject_kInitial n = False"
  unfolding VirtualObject_kTracked_def VirtualObject_kInitialized_def VirtualObject_kCopyRequired_def VirtualObject_kInitial_def
  by (auto simp only: bit_exp_iff possible_bit_word len_num1 len_bit0 bit_0_eq)

lemma for_each_invariant:
  assumes "for_each xs body s = Some s'" and "I s"
    and "\<And>x s s1. x \<in> set xs \<Longrightarrow> I s \<Longrightarrow> body x s = Some s1 \<Longrightarrow> I s1"
  shows "I s'"
  using assms
proof (induction xs arbitrary: s)
  case Nil
  then show ?case by simp
next
  case (Cons x xs)
  from Cons.prems(1) obtain s1 where b: "body x s = Some s1" and r: "for_each xs body s1 = Some s'"
    by (auto split: option.splits)
  have "I s1" using Cons.prems(2,3) b by auto
  then show ?case using Cons.IH [OF r] Cons.prems(3) by auto
qed

lemma SetField_count: "SetField obj i n c = Some obj' \<Longrightarrow> field_count obj' = field_count obj"
  by (auto simp: SetField_def field_count_def vec_set_def split: if_splits Option.bind_splits)

lemma ClearAllFields_count: "ClearAllFields obj = Some obj' \<Longrightarrow> field_count obj' = field_count obj"
  unfolding ClearAllFields_def
  by (erule for_each_invariant [where I = "\<lambda>ob. field_count ob = field_count obj"])
     (auto dest: SetField_count)

lemma ResizeFields_count: "field_count (snd (ResizeFields obj n)) = max (field_count obj) n"
  by (simp add: ResizeFields_def field_count_def vec_resize_def)

lemma UpdateFrom_fold_count:
  "length (vo_fields (snd (fold (\<lambda>i (changed, t).
                      if vo_fields t ! i \<noteq> vo_fields other ! i
                      then (True, t\<lparr>vo_fields := (vo_fields t)[i := vo_fields other ! i]\<rparr>)
                      else (changed, t)) xs (c, t)))) = length (vo_fields t)"
  by (induction xs arbitrary: c t) auto

lemma UpdateFrom_count:
  "field_count (snd (VirtualObject_UpdateFrom obj other)) = field_count other"
  by (simp add: VirtualObject_UpdateFrom_def field_count_def Let_def UpdateFrom_fold_count)

text \<open>
  The operations on one \<^verbatim>\<open>VirtualObject\<close>, each taken alone: \<^verbatim>\<open>ResizeFields\<close> leaves the larger
  of the old count and the requested one, the setters and \<^verbatim>\<open>ClearAllFields\<close> keep the count,
  and \<^verbatim>\<open>UpdateFrom(other)\<close> leaves the field count of \<open>other\<close>.
\<close>

lemma field_count_per_operation:
  "(case operation of
        OpUpdateFrom other \<Rightarrow> field_count obj' = field_count other
      | OpResizeFields n \<Rightarrow> field_count obj' = max (field_count obj) n
      | _ \<Rightarrow> field_count obj' = field_count obj)"
  if "apply_op operation obj = Some obj'"
proof (cases operation)
  case (OpSetField offset node created_phi)
  then show ?thesis using that by (simp add: SetField_count)
next
  case OpSetInitialized
  then show ?thesis using that by (auto simp: SetInitialized_def field_count_def Let_def)
next
  case (OpResizeFields n)
  then show ?thesis using that by (auto simp: ResizeFields_count)
next
  case OpClearAllFields
  then show ?thesis using that by (simp add: ClearAllFields_count)
next
  case (OpSetObjectState node)
  then show ?thesis using that by (auto simp: SetObjectState_def field_count_def)
next
  case OpSetCopyRequired
  then show ?thesis using that by (auto simp: SetCopyRequired_def field_count_def)
next
  case (OpUpdateFrom other)
  then show ?thesis using that by (auto simp: UpdateFrom_count)
qed


lemma field_count_per_operation_example:
  "apply_op (OpResizeFields 3) (VirtualObject_new_fields 7 0 2 False)
     = Some (snd (ResizeFields (VirtualObject_new_fields 7 0 2 False) 3))
   \<and> field_count (snd (ResizeFields (VirtualObject_new_fields 7 0 2 False) 3)) = 3"
proof -
  have h: "apply_op (OpResizeFields 3) (VirtualObject_new_fields 7 0 2 False)
             = Some (snd (ResizeFields (VirtualObject_new_fields 7 0 2 False) 3))"
    by simp
  have "field_count (VirtualObject_new_fields 7 0 2 False) = 2"
    by (simp add: field_count_def VirtualObject_new_fields_def vec_resize_def)
  with field_count_per_operation [OF h] h show ?thesis by simp
qed

lemma vec_at_simps:
  "i < length v \<Longrightarrow> vec_at v i = Some (v ! i)"
  "length v \<le> i \<Longrightarrow> vec_at v i = None"
  by (simp_all add: vec_at_def)

text \<open>
  C9. The queries by node id tolerate an id outside the side table: at or beyond the size
  of the status table \<^verbatim>\<open>IsVirtual\<close> and \<^verbatim>\<open>IsEscaped\<close> return false, and at or beyond
  the size of the replacement table \<^verbatim>\<open>replacement\<close> and \<^verbatim>\<open>GetReplacement\<close> return null.
  The queries are functions of the analysis object: they return a value and leave the
  tables as they are.
\<close>

theorem queries_grow_safe:
  "(length (sa_status (ea_status_analysis ea)) \<le> n \<longrightarrow>
      EscapeAnalysis_IsVirtual ea n = Some False \<and> EscapeAnalysis_IsEscaped ea n = Some False)
   \<and> (length (ea_replacements ea) \<le> n \<longrightarrow>
      replacement (ea_replacements ea) n = None
      \<and> EscapeAnalysis_GetReplacement ea n = Some None)"
  by (simp add: EscapeAnalysis_IsVirtual_def EscapeAnalysis_IsEscaped_def GetStatusVectorSize_def
        EscapeAnalysis_GetReplacement_def GetReplacement_def replacement_def
        GetReplacement_loop.simps)

theorem queries_grow_safe_witness:
  "length (sa_status (ea_status_analysis ea0)) \<le> 2 \<and> length (ea_replacements ea0) \<le> 2
   \<and> EscapeAnalysis_IsVirtual ea0 2 = Some False \<and> EscapeAnalysis_IsEscaped ea0 2 = Some False
   \<and> EscapeAnalysis_GetReplacement ea0 2 = Some None
   \<and> EscapeAnalysis_IsVirtual ea0 0 = Some True \<and> EscapeAnalysis_IsEscaped ea0 1 = Some True
   \<and> EscapeAnalysis_GetReplacement ea0 1 = Some (Some 0)"
proof -
  have h: "length (sa_status (ea_status_analysis ea0)) \<le> 2" "length (ea_replacements ea0) \<le> 2"
    by (simp_all add: ea0_def)
  have inside: "EscapeAnalysis_IsVirtual ea0 0 = Some True"
    "EscapeAnalysis_IsEscaped ea0 1 = Some True"
    "EscapeAnalysis_GetReplacement ea0 1 = Some (Some 0)"
    by (simp_all add: ea0_def EscapeAnalysis_IsVirtual_def EscapeAnalysis_IsEscaped_def
          GetStatusVectorSize_def EscapeStatusAnalysis_IsVirtual_def
          EscapeStatusAnalysis_IsEscaped_def vec_at_def flag_simps
          EscapeAnalysis_GetReplacement_def GetReplacement_def replacement_def
          GetReplacement_loop.simps)
  from queries_grow_safe [of ea0 2] h inside show ?thesis by simp
qed

text \<open>
  C10. \<^verbatim>\<open>SetEscaped\<close> sets Tracked together with Escaped; on every status table a node
  that \<^verbatim>\<open>IsEscaped\<close> has an entry (\<^verbatim>\<open>HasEntry\<close>), and no node is both \<^verbatim>\<open>IsVirtual\<close> and
  \<^verbatim>\<open>IsEscaped\<close>. As this holds of every table, it holds at every point of the analysis.
\<close>

theorem escaped_implies_entry_not_virtual:
  "(EscapeStatusAnalysis_SetEscaped sa n = Some (changed, sa') \<longrightarrow>
      (\<exists>st. vec_at (sa_status sa') n = Some st \<and> st AND kEscaped \<noteq> 0 \<and> st AND kTracked \<noteq> 0))
   \<and> (EscapeStatusAnalysis_IsEscaped tbl m = Some True \<longrightarrow> HasEntry tbl m = Some True)
   \<and> \<not> (EscapeStatusAnalysis_IsVirtual tbl m = Some True
          \<and> EscapeStatusAnalysis_IsEscaped tbl m = Some True)"
  by (auto simp: EscapeStatusAnalysis_SetEscaped_def EscapeStatusAnalysis_IsEscaped_def
        EscapeStatusAnalysis_IsVirtual_def HasEntry_def vec_at_def flag_simps Let_def
        split: if_splits Option.bind_splits)

theorem escaped_implies_entry_not_virtual_witness:
  "EscapeStatusAnalysis_SetEscaped sa0 1
     = Some (True, sa0\<lparr>sa_status := [kUnknown, kOnStack OR (kEscaped OR kTracked)]\<rparr>)
   \<and> EscapeStatusAnalysis_IsEscaped (sa0\<lparr>sa_status := [kUnknown, kOnStack OR (kEscaped OR kTracked)]\<rparr>) 1
       = Some True
   \<and> HasEntry (sa0\<lparr>sa_status := [kUnknown, kOnStack OR (kEscaped OR kTracked)]\<rparr>) 1 = Some True
   \<and> EscapeStatusAnalysis_IsVirtual (sa0\<lparr>sa_status := [kUnknown, kOnStack OR (kEscaped OR kTracked)]\<rparr>) 1
       = Some False"
proof -
  let ?sa = "sa0\<lparr>sa_status := [kUnknown, kOnStack OR (kEscaped OR kTracked)]\<rparr>"
  have h: "EscapeStatusAnalysis_SetEscaped sa0 1 = Some (True, ?sa)"
    by (simp add: EscapeStatusAnalysis_SetEscaped_def sa0_def vec_at_def flag_simps)
  have e: "EscapeStatusAnalysis_IsEscaped ?sa 1 = Some True"
    by (simp add: EscapeStatusAnalysis_IsEscaped_def sa0_def vec_at_def flag_simps)
  have v: "EscapeStatusAnalysis_IsVirtual ?sa 1 = Some False"
    by (simp add: EscapeStatusAnalysis_IsVirtual_def sa0_def vec_at_def flag_simps)
  from escaped_implies_entry_not_virtual [of sa0 1 True ?sa ?sa 1] h e v show ?thesis
    by simp
qed

section \<open>State update and copy on write\<close>

text \<open>
  C1. \<^verbatim>\<open>VirtualState::UpdateFrom\<close> computes \<^verbatim>\<open>changed\<close> in its loop and returns
  \<^verbatim>\<open>false\<close> whatever the two states are. (The witness is a pair of states on which the
  loop ends with \<^verbatim>\<open>changed = true\<close>.)
\<close>

theorem VirtualState_UpdateFrom_returns_false:
  "VirtualState_UpdateFrom z this from = Some (r, z') \<Longrightarrow> r = False"
  by (auto simp: VirtualState_UpdateFrom_def split: if_splits Option.bind_splits prod.splits)

lemma zone1_loop: "VirtualState_UpdateFrom_loop zone1 0 1 = Some (True, zone1')"
  by (simp add: VirtualState_UpdateFrom_loop_def VirtualState_size_def state_at_def vec_at_def
        zone1_def zone1'_def VirtualState_new_def VirtualState_UpdateFrom_body_def
        VirtualObjectFromAlias_def object_at_def new_object_def VirtualObject_copy_def
        VirtualObject_new_fields_def SetVirtualObject_def vec_set_def vec_resize_def
        VirtualObject_kInitial_def VirtualObject_kTracked_def VirtualObject_kCopyRequired_def)

theorem VirtualState_UpdateFrom_returns_false_witness:
  "VirtualState_UpdateFrom_loop zone1 0 1 = Some (True, zone1')
   \<and> VirtualState_UpdateFrom zone1 0 1 = Some (False, zone1')"
proof -
  have l: "VirtualState_UpdateFrom_loop zone1 0 1 = Some (True, zone1')"
    by (rule zone1_loop)
  then have "\<exists>r. VirtualState_UpdateFrom zone1 0 1 = Some (r, zone1')"
    by (auto simp: VirtualState_UpdateFrom_def)
  then obtain r where h: "VirtualState_UpdateFrom zone1 0 1 = Some (r, zone1')" ..
  from VirtualState_UpdateFrom_returns_false [OF h] h l show ?thesis by simp
qed


lemmas vo_flag_simps = vo_flag_tests bit_vo_flags bit_or_iff bit_and_iff bit_not_iff

lemma VirtualObject_copy_flags:
  "\<not> IsCopyRequired (VirtualObject_copy owner ob)"
  "IsInitialized (VirtualObject_copy owner ob) = IsInitialized ob"
  "IsTracked (VirtualObject_copy owner ob) = IsTracked ob"
  by (simp_all add: IsCopyRequired_def IsInitialized_def IsTracked_def VirtualObject_copy_def
        vo_flag_simps)

lemma CopyForModificationAt_state_result:
  assumes "CopyForModificationAt_state ea state node = Some (state', ea1)"
  shows "zone_objects (ea_zone ea1) = zone_objects (ea_zone ea)"
    and "ea_status_analysis ea1 = ea_status_analysis ea"
    and "VirtualState_owner (ea_zone ea) state = Some node \<Longrightarrow> state' = state \<and> ea1 = ea"
    and "VirtualState_owner (ea_zone ea) state \<noteq> Some node \<Longrightarrow>
           state' = length (zone_states (ea_zone ea))
           \<and> zone_states (ea_zone ea1)
               = zone_states (ea_zone ea) @ [VirtualState_copy node (the (state_at (ea_zone ea) state))]"
  using assms
  by (auto simp: CopyForModificationAt_state_def new_state_def VirtualState_owner_def
        split: if_splits Option.bind_splits prod.splits)

text \<open>
  C3 (as amended). \<^verbatim>\<open>CopyForModificationAt(obj, state, node)\<close> clones \<open>obj\<close> exactly when
  \<open>obj\<close> has both CopyRequired and Initialized set and, moreover, \<open>obj\<close>'s owner is not
  \<open>state\<close> or \<open>state\<close>'s owner is not \<open>node\<close> (then the state is cloned first). The clone is
  a new object with CopyRequired cleared and the fields of \<open>obj\<close>. (\<open>obj\<close>'s owner is a
  state of the zone.)
\<close>

theorem CopyForModificationAt_clones_iff:
  assumes "CopyForModificationAt ea obj state node = Some (r, ea')"
    and "object_at (ea_zone ea) obj = Some ob"
    and "vo_owner ob < length (zone_states (ea_zone ea))"
  shows "(r \<noteq> obj) =
           (IsCopyRequired ob \<and> IsInitialized ob
            \<and> (vo_owner ob \<noteq> state \<or> VirtualState_owner (ea_zone ea) state \<noteq> Some node))
         \<and> (r \<noteq> obj \<longrightarrow>
              r = length (zone_objects (ea_zone ea))
              \<and> (\<exists>clone. object_at (ea_zone ea') r = Some clone
                    \<and> \<not> IsCopyRequired clone
                    \<and> vo_fields clone = vo_fields ob \<and> vo_id clone = vo_id ob))"
proof (cases "NeedCopyForModification ob")
  case False
  with assms show ?thesis
    by (auto simp: CopyForModificationAt_def NeedCopyForModification_def)
next
  case True
  with assms(1,2) obtain state' ea1 al z where
    s: "CopyForModificationAt_state ea state node = Some (state', ea1)"
    and c: "VirtualState_Copy (ea_zone ea1) state' obj al = Some (r, z)"
    and e: "ea' = ea1\<lparr>ea_zone := z\<rparr>"
    by (auto simp: CopyForModificationAt_def split: Option.bind_splits)
  note st = CopyForModificationAt_state_result [OF s]
  have ob1: "object_at (ea_zone ea1) obj = Some ob"
    using assms(2) st(1) by (simp add: object_at_def)
  have flags: "IsCopyRequired ob" "IsInitialized ob"
    using True by (auto simp: NeedCopyForModification_def split: if_splits)
  have own: "(vo_owner ob = state') =
               (vo_owner ob = state \<and> VirtualState_owner (ea_zone ea) state = Some node)"
    using st(3,4) assms(3) by (cases "VirtualState_owner (ea_zone ea) state = Some node") auto
  show ?thesis
  proof (cases "vo_owner ob = state'")
    case True
    with c ob1 have "r = obj" by (simp add: VirtualState_Copy_def)
    with True own flags show ?thesis by simp
  next
    case False
    with c ob1 obtain z2 where
      r: "r = length (zone_objects (ea_zone ea1))"
      and z2: "SetVirtualObject (ea_zone ea1\<lparr>zone_objects := zone_objects (ea_zone ea1) @ [VirtualObject_copy state' ob]\<rparr>) state' al (Some r) = Some z"
      by (auto simp: VirtualState_Copy_def new_object_def split: Option.bind_splits)
    have lt: "obj < length (zone_objects (ea_zone ea))"
      using assms(2) by (simp add: object_at_def vec_at_def split: if_splits)
    from z2 have "zone_objects z = zone_objects (ea_zone ea1) @ [VirtualObject_copy state' ob]"
      by (auto simp: SetVirtualObject_def split: Option.bind_splits)
    then have "object_at (ea_zone ea') r = Some (VirtualObject_copy state' ob)"
      using r e by (simp add: object_at_def vec_at_def)
    moreover have "r \<noteq> obj" using r lt st(1) by simp
    moreover have "vo_owner ob \<noteq> state \<or> VirtualState_owner (ea_zone ea) state \<noteq> Some node"
      using False own by blast
    moreover have "r = length (zone_objects (ea_zone ea))"
      using r st(1) by simp
    moreover have "vo_fields (VirtualObject_copy state' ob) = vo_fields ob"
      "vo_id (VirtualObject_copy state' ob) = vo_id ob"
      by (simp_all add: VirtualObject_copy_def)
    ultimately show ?thesis
      using flags VirtualObject_copy_flags(1) [of state' ob] by simp
  qed
qed


lemmas example_defs = example_object_def example_analysis_def

lemmas copy_defs =
  CopyForModificationAt_def CopyForModificationAt_state_def NeedCopyForModification_def
  IsCopyRequired_def IsInitialized_def VirtualState_Copy_def VirtualObject_copy_def
  SetVirtualObject_def new_object_def new_state_def VirtualState_copy_def GetAlias_def
  object_at_def state_at_def vec_at_def vec_set_def VirtualState_owner_def

theorem CopyForModificationAt_clones_iff_witness:
  "CopyForModificationAt (example_analysis (example_object 7 0)) 0 1 0
     = Some (1, (example_analysis (example_object 7 0))
          \<lparr>ea_zone := \<lparr>zone_objects = [example_object 7 0, example_object 3 2],
                      zone_states = [\<lparr>vs_info = [Some 0], vs_owner = 1\<rparr>,
                                     \<lparr>vs_info = [Some 0], vs_owner = 2\<rparr>,
                                     \<lparr>vs_info = [Some 1], vs_owner = 0\<rparr>]\<rparr>,
            ea_virtual_states := [Some 2, Some 0, Some 1]\<rparr>)
   \<and> object_at (ea_zone (example_analysis (example_object 7 0))) 0 = Some (example_object 7 0)
   \<and> vo_owner (example_object 7 0) < length (zone_states (ea_zone (example_analysis (example_object 7 0))))
   \<and> IsCopyRequired (example_object 7 0) \<and> IsInitialized (example_object 7 0)
   \<and> \<not> IsCopyRequired (example_object 3 2)"
proof -
  let ?ea = "example_analysis (example_object 7 0)"
  let ?ea' = "?ea\<lparr>ea_zone := \<lparr>zone_objects = [example_object 7 0, example_object 3 2],
                      zone_states = [\<lparr>vs_info = [Some 0], vs_owner = 1\<rparr>,
                                     \<lparr>vs_info = [Some 0], vs_owner = 2\<rparr>,
                                     \<lparr>vs_info = [Some 1], vs_owner = 0\<rparr>]\<rparr>,
            ea_virtual_states := [Some 2, Some 0, Some 1]\<rparr>"
  have run: "CopyForModificationAt ?ea 0 1 0 = Some (1, ?ea')"
    by (simp add: copy_defs example_defs vo_flag_simps VirtualObject_kCopyRequired_def)
  have ob: "object_at (ea_zone ?ea) 0 = Some (example_object 7 0)"
    by (simp add: example_defs object_at_def vec_at_def)
  have own: "vo_owner (example_object 7 0) < length (zone_states (ea_zone ?ea))"
    by (simp add: example_defs)
  from CopyForModificationAt_clones_iff [OF run ob own]
  have "IsCopyRequired (example_object 7 0) \<and> IsInitialized (example_object 7 0)
        \<and> (\<exists>clone. object_at (ea_zone ?ea') 1 = Some clone \<and> \<not> IsCopyRequired clone)"
    by auto
  moreover have "object_at (ea_zone ?ea') 1 = Some (example_object 3 2)"
    by (simp add: example_defs object_at_def vec_at_def)
  ultimately show ?thesis using run ob own by auto
qed

text \<open>
  C3 as stated fails in both directions: an object owned by another state but without
  CopyRequired is returned as it is, and so is an object with CopyRequired and Initialized
  that the state owns when the state's owner is the node.
\<close>

theorem CopyForModificationAt_counterexample:
  "vo_owner (example_object 3 0) \<noteq> 1
   \<and> CopyForModificationAt (example_analysis (example_object 3 0)) 0 1 0
       = Some (0, example_analysis (example_object 3 0))
   \<and> IsCopyRequired (example_object 7 0) \<and> IsInitialized (example_object 7 0)
   \<and> CopyForModificationAt (example_analysis (example_object 7 0)) 0 0 1
       = Some (0, example_analysis (example_object 7 0))"
  by (simp add: copy_defs example_defs vo_flag_simps)

section \<open>Allocation\<close>

lemma ForwardVirtualState_graph:
  "ForwardVirtualState ea node = Some ea1 \<Longrightarrow> ea_graph ea1 = ea_graph ea"
  by (auto simp: ForwardVirtualState_def bind_eq_Some_conv split: if_splits option.splits)

lemma CopyForModificationAt_state_state_of:
  assumes "CopyForModificationAt_state ea state node = Some (state', ea1)"
    and "state_of ea node = Some state"
  shows "state_of ea1 node = Some state'" and "ea_graph ea1 = ea_graph ea"
  using assms
  by (auto simp: CopyForModificationAt_state_def state_of_def vec_set_def vec_at_def new_state_def
        bind_eq_Some_conv split: if_splits)

lemma SetVirtualObject_result:
  assumes "SetVirtualObject z this a obj = Some z'"
  shows "VirtualObjectFromAlias z' this a = Some obj"
    and "zone_objects z' = zone_objects z"
  using assms
  by (auto simp: SetVirtualObject_def VirtualObjectFromAlias_def state_at_def vec_at_def vec_set_def
        bind_eq_Some_conv split: if_splits)

lemma vo_flags_nonzero:
  "VirtualObject_kTracked \<noteq> 0" "VirtualObject_kInitialized \<noteq> 0"
  "VirtualObject_kCopyRequired \<noteq> 0"
  by (simp_all add: VirtualObject_kTracked_def VirtualObject_kInitialized_def
        VirtualObject_kCopyRequired_def)

lemma VirtualObject_new_fields_props:
  "field_count (VirtualObject_new_fields nid owner n False) = n"
  "IsTracked (VirtualObject_new_fields nid owner n False)"
  "\<not> IsInitialized (VirtualObject_new_fields nid owner n False)"
  "\<not> IsCopyRequired (VirtualObject_new_fields nid owner n False)"
  "vo_id (VirtualObject_new_fields nid owner n False) = nid"
  "vo_owner (VirtualObject_new_fields nid owner n False) = owner"
  by (simp_all add: VirtualObject_new_fields_def field_count_def vec_resize_def IsTracked_def
        IsInitialized_def IsCopyRequired_def vo_flag_simps vo_flags_nonzero)

lemma double_to_size_t_Some:
  assumes "double_to_size_t kPointerSizeLog2 (double_div d k) = Some n"
  shows "\<exists>x. d = Finite x \<and> 0 \<le> c_trunc (x / real k) \<and> n = nat (c_trunc (x / real k))"
  using assms
  by (cases d) (auto simp: double_to_size_t_def double_div_def split: if_splits)

text \<open>
  C7. When \<^verbatim>\<open>ProcessAllocation\<close> handles an Allocate node whose size input is a number
  constant \<open>d\<close>, and the node's state (after forwarding) has no object at the node's alias,
  then afterwards the node's state holds at that alias an object whose field count is
  \<open>d / kPointerSize\<close> as a \<^verbatim>\<open>size_t\<close>, that is the quotient with its fraction cut;
  the object is Tracked and not Initialized (its id is the node, its owner the state).
\<close>

theorem ProcessAllocation_installs_object:
  assumes run: "ProcessAllocation kPointerSizeLog2 ea node = Some ea'"
    and fwd: "ForwardVirtualState ea node = Some ea1"
    and st: "state_of ea1 node = Some state"
    and al: "GetAlias (ea_status_analysis ea1) node = Some a"
    and none: "VirtualObjectFromAlias (ea_zone ea1) state a = Some None"
    and sz: "InputAt (ea_graph ea) node 0 = Some sz"
    and num: "NumberMatcher (ea_graph ea) sz = Some (Some d)"
  shows "\<exists>state' p ob x.
           d = Finite x
           \<and> state_of ea' node = Some state'
           \<and> VirtualObjectFromAlias (ea_zone ea') state' a = Some (Some p)
           \<and> object_at (ea_zone ea') p = Some ob
           \<and> field_count ob = nat (c_trunc (x / real (kPointerSize kPointerSizeLog2)))
           \<and> IsTracked ob \<and> \<not> IsInitialized ob
           \<and> vo_id ob = node \<and> vo_owner ob = state'"
proof -
  have g1: "ea_graph ea1 = ea_graph ea" by (rule ForwardVirtualState_graph [OF fwd])
  from run fwd st al none obtain state1 ea2 where
    cp: "(state1 = state \<and> ea2 = ea1)
         \<or> CopyForModificationAt_state ea1 state node = Some (state1, ea2)"
    and cr: "ProcessAllocation_create kPointerSizeLog2 ea2 node state1 a = Some ea'"
    by (fastforce simp: ProcessAllocation_def bind_eq_Some_conv split: if_splits)
  have cp': "state_of ea2 node = Some state1" "ea_graph ea2 = ea_graph ea"
    using cp st g1 CopyForModificationAt_state_state_of [of ea1 state node state1 ea2]
    by auto
  let ?p = "length (zone_objects (ea_zone ea2))"
  from cr sz num cp'(2) obtain n z1 where
    n: "double_to_size_t kPointerSizeLog2 (double_div d (kPointerSize kPointerSizeLog2)) = Some n"
    and set: "SetVirtualObject
                (ea_zone ea2\<lparr>zone_objects := zone_objects (ea_zone ea2)
                                 @ [VirtualObject_new_fields node state1 n False]\<rparr>)
                state1 a (Some ?p) = Some z1"
    and e: "ea' = ea2\<lparr>ea_zone := z1\<rparr>"
    by (auto simp: ProcessAllocation_create_def bind_eq_Some_conv new_object_def split: if_splits)
  let ?ob = "VirtualObject_new_fields node state1 n False"
  from double_to_size_t_Some [OF n] obtain x where
    x: "d = Finite x" "n = nat (c_trunc (x / real (kPointerSize kPointerSizeLog2)))"
    by blast
  have "state_of ea' node = Some state1" using cp'(1) e by (simp add: state_of_def)
  moreover have "VirtualObjectFromAlias (ea_zone ea') state1 a = Some (Some ?p)"
    using SetVirtualObject_result(1) [OF set] e by simp
  moreover have "object_at (ea_zone ea') ?p = Some ?ob"
    using SetVirtualObject_result(2) [OF set] e
    by (simp add: object_at_def vec_at_def)
  ultimately show ?thesis
    using VirtualObject_new_fields_props [of node state1 n] x
    by blast
qed

lemma sentinel_simps:
  "kNotReachable \<noteq> 0" "0 < kNotReachable" "kUntrackable \<noteq> kNotReachable"
  "kNotReachable \<noteq> kUntrackable" "0 < kUntrackable" "kUntrackable \<noteq> 0"
  "Suc 0 < kUntrackable" "\<not> kUntrackable \<le> 0" "\<not> kNotReachable \<le> 0"
  "kUntrackable \<le> kNotReachable" "kUntrackable \<le> kUntrackable"
  "\<not> kNotReachable \<le> Suc 0" "\<not> kUntrackable \<le> Suc 0"
  by (simp_all add: kNotReachable_def kUntrackable_def)

lemma upt4: "[0..<4] = [0, 1, 2, 3]" "[0..<3] = [0,1,2]" "[0..<2] = [0,1]" "[0..<1] = [0]"
  by (simp_all add: upt_rec)

lemmas graph_defs = node_operator_def node_at_def node_opcode_def vec_at_def
  InputAt_def GetValueInput_def GetEffectInput_def GetControlInput_def IsEffectEdge_def
  FirstEffectIndex_def FirstControlIndex_def

lemma alloc_graph_operator:
  "node_operator (alloc_graph sop) 0 = Some ((plain_op kStart)\<lparr>EffectOutputCount := 1\<rparr>)"
  "node_operator (alloc_graph sop) (Suc 0) = Some sop"
  "node_operator (alloc_graph sop) 2
     = Some ((plain_op kAllocate)\<lparr>ValueInputCount := 1, EffectInputCount := 1,
                       ControlInputCount := 1, EffectOutputCount := 1\<rparr>)"
  "node_operator (alloc_graph sop) 3 = Some ((plain_op kEnd)\<lparr>ControlInputCount := 1\<rparr>)"
  by (simp_all add: alloc_graph_def node_operator_def node_at_def vec_at_def)

lemma alloc_graph_opcode:
  "node_opcode (alloc_graph sop) 0 = Some kStart"
  "node_opcode (alloc_graph sop) (Suc 0) = Some (opcode sop)"
  "node_opcode (alloc_graph sop) 2 = Some kAllocate"
  "node_opcode (alloc_graph sop) 3 = Some kEnd"
  by (simp_all add: alloc_graph_def node_opcode_def node_at_def vec_at_def plain_op_def)

lemma alloc_graph_inputs:
  "InputAt (alloc_graph sop) 2 0 = Some (Suc 0)"
  "GetEffectInput (alloc_graph sop) 2 0 = Some 0"
  "input_edges (alloc_graph sop) 0 = Some []"
  "input_edges (alloc_graph sop) (Suc 0) = Some []"
  "input_edges (alloc_graph sop) 2
     = Some [\<lparr>edge_from = 2, edge_to = Suc 0, edge_index = 0\<rparr>,
             \<lparr>edge_from = 2, edge_to = 0, edge_index = Suc 0\<rparr>,
             \<lparr>edge_from = 2, edge_to = 0, edge_index = 2\<rparr>]"
  "input_edges (alloc_graph sop) 3 = Some [\<lparr>edge_from = 3, edge_to = 2, edge_index = 0\<rparr>]"
  by (simp_all add: alloc_graph_def graph_defs input_edges_def plain_op_def upt4)

lemma alloc_graph_uses:
  "use_edges (alloc_graph sop) 0
     = [\<lparr>edge_from = 2, edge_to = 0, edge_index = Suc 0\<rparr>,
        \<lparr>edge_from = 2, edge_to = 0, edge_index = 2\<rparr>]"
  "use_edges (alloc_graph sop) (Suc 0) = [\<lparr>edge_from = 2, edge_to = Suc 0, edge_index = 0\<rparr>]"
  "use_edges (alloc_graph sop) 2 = [\<lparr>edge_from = 3, edge_to = 2, edge_index = 0\<rparr>]"
  "use_edges (alloc_graph sop) 3 = []"
  by (simp_all add: use_edges_def alloc_graph_def upt4)

lemma alloc_graph_effect_edges:
  "IsEffectEdge (alloc_graph sop) \<lparr>edge_from = 2, edge_to = t, edge_index = 0\<rparr> = Some False"
  "IsEffectEdge (alloc_graph sop) \<lparr>edge_from = 2, edge_to = t, edge_index = Suc 0\<rparr> = Some True"
  "IsEffectEdge (alloc_graph sop) \<lparr>edge_from = 2, edge_to = t, edge_index = 2\<rparr> = Some False"
  "IsEffectEdge (alloc_graph sop) \<lparr>edge_from = 3, edge_to = t, edge_index = 0\<rparr> = Some False"
  by (simp_all add: IsEffectEdge_def alloc_graph_operator FirstEffectIndex_def plain_op_def)

lemma alloc_graph_misc:
  "NodeCount (alloc_graph sop) = 4"
  "graph_start (alloc_graph sop) = 0"
  "graph_end (alloc_graph sop) = 3"
  "NumberMatcher (alloc_graph (number_constant v)) (Suc 0) = Some (Some (Finite v))"
  "not_machine_constant (alloc_graph (number_constant v)) (Suc 0) = Some ()"
  by (simp_all add: NodeCount_def NumberMatcher_def not_machine_constant_def
        alloc_graph_operator alloc_graph_opcode number_constant_def plain_op_def)
     (simp_all add: alloc_graph_def)

lemmas alloc_graph_facts = alloc_graph_operator alloc_graph_opcode alloc_graph_inputs
  alloc_graph_uses alloc_graph_effect_edges alloc_graph_misc

lemmas status_defs = IsDanglingEffectNode_def IsEffectBranchPoint_def IsEffectBranchPoint_body_def
  status_or_def status_clear_def

lemma example_forward:
  "ForwardVirtualState (at_allocate (alloc_graph sop)) 2 = Some (forwarded (alloc_graph sop))"
  by (simp add: ForwardVirtualState_def at_allocate_def forwarded_def status_defs state_of_def
        flag_simps alloc_graph_facts vec_at_def vec_set_def plain_op_def kUnknown_def
        sentinel_simps)

lemma example_forwarded:
  "state_of (forwarded g) 2 = Some 0"
  "GetAlias (ea_status_analysis (forwarded g)) 2 = Some 0"
  "VirtualObjectFromAlias (ea_zone (forwarded g)) 0 0 = Some None"
  "VirtualState_owner (ea_zone (forwarded g)) 0 = Some 0"
  "ea_graph (forwarded g) = g"
  by (simp_all add: forwarded_def at_allocate_def state_of_def GetAlias_def vec_at_def
        VirtualObjectFromAlias_def state_at_def VirtualState_new_def VirtualState_owner_def)

lemma at_allocate_graph: "ea_graph (at_allocate g) = g"
  by (simp add: at_allocate_def)

lemma example_size:
  "double_to_size_t 3 (double_div (Finite 16) (kPointerSize 3)) = Some 2"
  by (simp add: double_to_size_t_def double_div_def kPointerSize_def c_trunc_def)

lemma example_negative_size:
  "double_to_size_t 3 (double_div (Finite (- 4)) (kPointerSize 3)) = Some 0"
  "double_to_size_t 3 (double_div (Finite (- 16)) (kPointerSize 3)) = None"
  "double_to_size_t 3 (double_div (Finite (2 ^ 70)) (kPointerSize 3)) = None"
  by (simp_all add: double_to_size_t_def double_div_def kPointerSize_def c_trunc_def)

lemma example_allocation:
  "ProcessAllocation 3 (at_allocate (alloc_graph (number_constant 16))) 2
     = Some (allocated (alloc_graph (number_constant 16)) (VirtualObject_new_fields 2 0 2 False))"
  by (simp add: ProcessAllocation_def ProcessAllocation_create_def example_forward
        example_forwarded alloc_graph_facts new_object_def SetVirtualObject_def
        at_allocate_graph example_size)
     (simp add: allocated_def forwarded_def at_allocate_def state_at_def vec_at_def vec_set_def
        VirtualState_new_def)

theorem ProcessAllocation_installs_object_witness:
  "ProcessAllocation 3 (at_allocate (alloc_graph (number_constant 16))) 2
     = Some (allocated (alloc_graph (number_constant 16)) (VirtualObject_new_fields 2 0 2 False))
   \<and> ForwardVirtualState (at_allocate (alloc_graph (number_constant 16))) 2
       = Some (forwarded (alloc_graph (number_constant 16)))
   \<and> VirtualObjectFromAlias (ea_zone (forwarded (alloc_graph (number_constant 16)))) 0 0
       = Some None
   \<and> NumberMatcher (alloc_graph (number_constant 16)) 1 = Some (Some (Finite 16))
   \<and> state_of (allocated (alloc_graph (number_constant 16)) (VirtualObject_new_fields 2 0 2 False)) 2
       = Some 0
   \<and> VirtualObjectFromAlias
         (ea_zone (allocated (alloc_graph (number_constant 16)) (VirtualObject_new_fields 2 0 2 False)))
         0 0 = Some (Some 0)
   \<and> object_at
         (ea_zone (allocated (alloc_graph (number_constant 16)) (VirtualObject_new_fields 2 0 2 False)))
         0 = Some (VirtualObject_new_fields 2 0 2 False)
   \<and> field_count (VirtualObject_new_fields 2 0 2 False) = nat (c_trunc (16 / real (kPointerSize 3)))"
proof -
  let ?g = "alloc_graph (number_constant 16)"
  let ?ob = "VirtualObject_new_fields 2 0 2 False"
  have sz: "InputAt (ea_graph (at_allocate ?g)) 2 0 = Some 1"
    and num: "NumberMatcher (ea_graph (at_allocate ?g)) 1 = Some (Some (Finite 16))"
    by (simp_all add: at_allocate_def alloc_graph_facts)
  from ProcessAllocation_installs_object
         [OF example_allocation example_forward example_forwarded(1,2,3) sz num]
  obtain state' p ob where
    "state_of (allocated ?g ?ob) 2 = Some state'"
    "VirtualObjectFromAlias (ea_zone (allocated ?g ?ob)) state' 0 = Some (Some p)"
    "object_at (ea_zone (allocated ?g ?ob)) p = Some ob"
    "field_count ob = nat (c_trunc (16 / real (kPointerSize 3)))"
    by auto
  moreover have "state_of (allocated ?g ?ob) 2 = Some 0"
    "object_at (ea_zone (allocated ?g ?ob)) 0 = Some ?ob"
    "VirtualObjectFromAlias (ea_zone (allocated ?g ?ob)) 0 0 = Some (Some 0)"
    by (simp_all add: allocated_def forwarded_def at_allocate_def state_of_def vec_at_def
          object_at_def VirtualObjectFromAlias_def state_at_def)
  ultimately show ?thesis
    using example_allocation example_forward example_forwarded(3) num
    by (auto simp: at_allocate_def)
qed


section \<open>Merging at an EffectPhi\<close>

lemma zone_separated_valid:
  "zone_separated z ss \<Longrightarrow> s \<in> set ss \<Longrightarrow> VirtualObjectFromAlias z s a = Some (Some p)
   \<Longrightarrow> p < length (zone_objects z)"
  unfolding zone_separated_def by blast

lemma zone_separated_alias:
  "zone_separated z ss \<Longrightarrow> s \<in> set ss \<Longrightarrow> s' \<in> set ss
   \<Longrightarrow> VirtualObjectFromAlias z s a = Some (Some p)
   \<Longrightarrow> VirtualObjectFromAlias z s' b = Some (Some p) \<Longrightarrow> a = b"
  unfolding zone_separated_def by blast

lemma for_each_append:
  "for_each (xs @ ys) body s = Option.bind (for_each xs body s) (for_each ys body)"
  by (induction xs arbitrary: s) (auto split: option.splits)

subsection \<open>The first loop: collecting the objects\<close>

lemma contributors_Nil: "contributors z [] a = []"
  by (simp add: contributors_def)

lemma contributors_Cons:
  "contributors z (s # sts) a
     = (case VirtualObjectFromAlias z s a of Some (Some p) \<Rightarrow> [p] | _ \<Rightarrow> []) @ contributors z sts a"
  by (simp add: contributors_def)

lemma contributors_length:
  "length (contributors z sts a) \<le> length sts"
  by (induction sts) (auto simp: contributors_Nil contributors_Cons split: option.splits)

lemma contributors_all_present:
  "(length (contributors z sts a) = length sts) = all_present z sts a"
proof (induction sts)
  case Nil
  then show ?case by (simp add: contributors_def all_present_def)
next
  case (Cons s sts)
  have le: "length (contributors z sts a) \<le> length sts" by (rule contributors_length)
  show ?case
  proof (cases "\<exists>p. VirtualObjectFromAlias z s a = Some (Some p)")
    case True
    then show ?thesis using Cons
      by (auto simp: contributors_Cons all_present_def)
  next
    case False
    then have "contributors z (s # sts) a = contributors z sts a"
      by (auto simp: contributors_Cons split: option.splits)
    with False le show ?thesis
      by (auto simp: all_present_def)
  qed
qed

text \<open>The least field count, as the loop computes it.\<close>

lemma Min_insert_min:
  "finite S \<Longrightarrow> Min (insert (min (n::nat) m) S) = Min (insert m (insert n S))"
  using Min_insert by fastforce

lemma fold_min_fields:
  "fold min_fields ns (Some m) = Some (Min (insert m (set ns)))"
proof (induction ns arbitrary: m)
  case Nil
  show ?case by simp
next
  case (Cons n ns)
  have "fold min_fields (n # ns) (Some m) = fold min_fields ns (Some (min n m))"
    by simp
  also have "\<dots> = Some (Min (insert (min n m) (set ns)))"
    by (rule Cons.IH)
  also have "Min (insert (min n m) (set ns)) = Min (insert m (set (n # ns)))"
    by (simp only: Min_insert_min [OF finite_set] list.set)
  finally show ?case .
qed

lemma fold_min_fields_None:
  "ns \<noteq> [] \<Longrightarrow> fold min_fields ns None = Some (Min (set ns))"
  by (cases ns) (simp_all add: fold_min_fields)

lemma MergeFrom_collect_gen:
  assumes "for_each sts
       (\<lambda>state (objs, copy_merge_object, fields).
          do { obj \<leftarrow> VirtualObjectFromAlias z state a;
               case obj of
                 None \<Rightarrow> Some (objs, copy_merge_object, fields)
               | Some p \<Rightarrow> do {
                   ob \<leftarrow> object_at z p;
                   Some (objs @ [p], copy_merge_object \<or> mergeObject = Some p,
                         min_fields (field_count ob) fields) } })
       (objs0, cmo0, f0) = Some (objs, cmo, fld)"
  shows "objs = objs0 @ contributors z sts a
         \<and> cmo = (cmo0 \<or> mergeObject \<in> Some ` set (contributors z sts a))
         \<and> fld = fold min_fields (map (count_at z) (contributors z sts a)) f0
         \<and> (\<forall>p \<in> set (contributors z sts a). p < length (zone_objects z))"
  using assms
proof (induction sts arbitrary: objs0 cmo0 f0)
  case Nil
  then show ?case by (simp add: contributors_def)
next
  case (Cons s sts)
  show ?case
  proof (cases "VirtualObjectFromAlias z s a")
    case None
    with Cons.prems show ?thesis by simp
  next
    case (Some e)
    show ?thesis
    proof (cases e)
      case None
      with Some Cons.prems have
        "for_each sts
       (\<lambda>state (objs, copy_merge_object, fields).
          do { obj \<leftarrow> VirtualObjectFromAlias z state a;
               case obj of
                 None \<Rightarrow> Some (objs, copy_merge_object, fields)
               | Some p \<Rightarrow> do {
                   ob \<leftarrow> object_at z p;
                   Some (objs @ [p], copy_merge_object \<or> mergeObject = Some p,
                         min_fields (field_count ob) fields) } })
       (objs0, cmo0, f0) = Some (objs, cmo, fld)"
        by simp
      from Cons.IH [OF this] Some None show ?thesis
        by (simp add: contributors_Cons)
    next
      case (Some p)
      with \<open>VirtualObjectFromAlias z s a = Some e\<close> Cons.prems obtain ob where
        ob: "object_at z p = Some ob"
        and r: "for_each sts
       (\<lambda>state (objs, copy_merge_object, fields).
          do { obj \<leftarrow> VirtualObjectFromAlias z state a;
               case obj of
                 None \<Rightarrow> Some (objs, copy_merge_object, fields)
               | Some p \<Rightarrow> do {
                   ob \<leftarrow> object_at z p;
                   Some (objs @ [p], copy_merge_object \<or> mergeObject = Some p,
                         min_fields (field_count ob) fields) } })
       (objs0 @ [p], cmo0 \<or> mergeObject = Some p, min_fields (field_count ob) f0)
         = Some (objs, cmo, fld)"
        by (auto simp: bind_eq_Some_conv split: option.splits)
      have lt: "p < length (zone_objects z)"
        using ob by (simp add: object_at_def vec_at_def split: if_splits)
      have cnt: "count_at z p = field_count ob" using ob by (simp add: count_at_def)
      from Cons.IH [OF r] Some \<open>VirtualObjectFromAlias z s a = Some e\<close> lt cnt show ?thesis
        by (auto simp: contributors_Cons)
    qed
  qed
qed

lemma MergeFrom_collect_result:
  assumes "MergeFrom_collect z sts mergeObject a = Some (objs, cmo, fld)"
  shows "objs = contributors z sts a"
    and "cmo = (mergeObject \<in> Some ` set (contributors z sts a))"
    and "objs \<noteq> [] \<Longrightarrow> fld = Some (min_count z sts a)"
    and "\<forall>p \<in> set objs. p < length (zone_objects z)"
proof -
  note r = MergeFrom_collect_gen [OF assms [unfolded MergeFrom_collect_def]]
  show "objs = contributors z sts a" using r by simp
  then show "objs \<noteq> [] \<Longrightarrow> fld = Some (min_count z sts a)"
    using r by (simp add: fold_min_fields_None min_count_def)
  show "cmo = (mergeObject \<in> Some ` set (contributors z sts a))" using r by simp
  show "\<forall>p \<in> set objs. p < length (zone_objects z)" using r by simp
qed

subsection \<open>The loop over the fields touches one object and keeps its field count\<close>

lemma same_zone_but_refl: "same_zone_but mo z z"
  by (simp add: same_zone_but_def)

lemma same_zone_but_trans:
  "same_zone_but mo z z1 \<Longrightarrow> same_zone_but mo z1 z2 \<Longrightarrow> same_zone_but mo z z2"
  by (simp add: same_zone_but_def)

lemma put_object_same_count:
  assumes "put_object z mo ob' = Some z1" and "object_at z mo = Some ob"
    and "field_count ob' = field_count ob"
  shows "same_zone_but mo z z1"
  using assms
  by (auto simp: put_object_def same_zone_but_def object_at_def vec_at_def vec_set_def
        count_at_def bind_eq_Some_conv split: if_splits)

lemma SetField_same_count:
  assumes "SetField mob i v b = Some mob1" and "put_object z mo mob1 = Some z1"
    and "object_at z mo = Some mob"
  shows "same_zone_but mo z z1"
  using put_object_same_count [OF assms(2,3)] SetField_count [OF assms(1)] by simp

lemma MergeCache_GetFields_cache:
  "MergeCache_GetFields z c pos = Some (r, c1)
   \<Longrightarrow> mc_states c1 = mc_states c \<and> mc_objects c1 = mc_objects c"
  by (auto simp: MergeCache_GetFields_def bind_eq_Some_conv)

lemma MergeFrom_field_frame:
  assumes "MergeFrom_field mo control arity i (ch, z, g, c) = Some (ch', z', g', c')"
  shows "same_zone_but mo z z' \<and> mc_states c' = mc_states c \<and> mc_objects c' = mc_objects c"
proof -
  from assms obtain r c1 mob where
    gf: "MergeCache_GetFields z c i = Some (r, c1)"
    and mob: "object_at z mo = Some mob"
    by (auto simp: MergeFrom_field_def bind_eq_Some_conv)
  note c1 = MergeCache_GetFields_cache [OF gf]
  show ?thesis
  proof (cases r)
    case (Some field)
    with assms gf mob c1 show ?thesis
      by (auto simp: MergeFrom_field_def bind_eq_Some_conv dest: SetField_same_count)
  next
    case None
    show ?thesis
    proof (cases "length (mc_fields c1) = arity")
      case False
      with None assms gf mob c1 show ?thesis
        by (auto simp: MergeFrom_field_def bind_eq_Some_conv Let_def dest: SetField_same_count)
    next
      case True
      with None assms gf mob c1 show ?thesis
        by (auto simp: MergeFrom_field_def bind_eq_Some_conv Let_def NewNode_def
              same_zone_but_refl
              split: if_splits prod.splits dest: SetField_same_count)
    qed
  qed
qed

lemma MergeFrom_fields_frame:
  assumes "for_each is (MergeFrom_field mo control arity) (ch, z, g, c) = Some (ch', z', g', c')"
  shows "same_zone_but mo z z' \<and> mc_states c' = mc_states c"
proof -
  have "(\<lambda>(ch', z', g', c'). same_zone_but mo z z' \<and> mc_states c' = mc_states c) (ch', z', g', c')"
  proof (rule for_each_invariant [OF assms])
    show "(\<lambda>(ch', z', g', c'). same_zone_but mo z z' \<and> mc_states c' = mc_states c) (ch, z, g, c)"
      by (simp add: same_zone_but_refl)
  next
    fix x s s1
    assume "(\<lambda>(ch', z', g', c'). same_zone_but mo z z' \<and> mc_states c' = mc_states c) s"
      and "MergeFrom_field mo control arity x s = Some s1"
    then show "(\<lambda>(ch', z', g', c'). same_zone_but mo z z' \<and> mc_states c' = mc_states c) s1"
      by (cases s, cases s1) (auto dest!: MergeFrom_field_frame intro: same_zone_but_trans)
  qed
  then show ?thesis by simp
qed

subsection \<open>One alias\<close>

lemma VirtualObjectFromAlias_states:
  "zone_states z' = zone_states z
   \<Longrightarrow> VirtualObjectFromAlias z' s b = VirtualObjectFromAlias z s b"
  by (simp add: VirtualObjectFromAlias_def state_at_def)

lemma SetVirtualObject_frame:
  assumes "SetVirtualObject z s a x = Some z1"
  shows "VirtualObjectFromAlias z1 s a = Some x"
    and "\<And>s' b. (s', b) \<noteq> (s, a)
           \<Longrightarrow> VirtualObjectFromAlias z1 s' b = VirtualObjectFromAlias z s' b"
    and "zone_objects z1 = zone_objects z"
  using assms
  by (auto simp: SetVirtualObject_def VirtualObjectFromAlias_def state_at_def vec_at_def vec_set_def
        bind_eq_Some_conv nth_list_update split: if_splits)

lemma put_object_frame:
  assumes "put_object z p ob = Some z1"
  shows "zone_states z1 = zone_states z"
    and "length (zone_objects z1) = length (zone_objects z)"
    and "object_at z1 p = Some ob"
    and "\<And>q. q \<noteq> p \<Longrightarrow> object_at z1 q = object_at z q"
    and "p < length (zone_objects z)"
  using assms
  by (auto simp: put_object_def object_at_def vec_at_def vec_set_def bind_eq_Some_conv
        split: if_splits)

lemma same_zone_butD:
  assumes "same_zone_but mo z z'"
  shows "VirtualObjectFromAlias z' s b = VirtualObjectFromAlias z s b"
    and "length (zone_objects z') = length (zone_objects z)"
    and "p \<noteq> mo \<Longrightarrow> object_at z' p = object_at z p"
    and "count_at z' mo = count_at z mo"
proof -
  show "VirtualObjectFromAlias z' s b = VirtualObjectFromAlias z s b"
    using assms by (intro VirtualObjectFromAlias_states) (simp add: same_zone_but_def)
qed (use assms in \<open>simp_all add: same_zone_but_def\<close>)

lemma GetOrCreateTrackedVirtualObject_cases:
  assumes "GetOrCreateTrackedVirtualObject z this a nid fn init force = Some (mo, z1)"
  shows "(\<not> force \<and> VirtualObjectFromAlias z this a = Some (Some mo) \<and> z1 = z)
       \<or> ((force \<or> VirtualObjectFromAlias z this a = Some None)
          \<and> mo = length (zone_objects z)
          \<and> zone_objects z1 = zone_objects z @ [VirtualObject_new_fields nid this 0 init]
          \<and> VirtualObjectFromAlias z1 this a = Some (Some mo)
          \<and> (\<forall>s b. (s, b) \<noteq> (this, a)
                \<longrightarrow> VirtualObjectFromAlias z1 s b = VirtualObjectFromAlias z s b))"
proof -
  have fresh: "mo = length (zone_objects z)
          \<and> zone_objects z1 = zone_objects z @ [VirtualObject_new_fields nid this 0 init]
          \<and> VirtualObjectFromAlias z1 this a = Some (Some mo)
          \<and> (\<forall>s b. (s, b) \<noteq> (this, a)
                \<longrightarrow> VirtualObjectFromAlias z1 s b = VirtualObjectFromAlias z s b)"
    if set: "SetVirtualObject
               (z\<lparr>zone_objects := zone_objects z @ [VirtualObject_new_fields nid this 0 init]\<rparr>)
               this a (Some (length (zone_objects z))) = Some z1"
      and mo: "mo = length (zone_objects z)"
  proof -
    let ?z = "z\<lparr>zone_objects := zone_objects z @ [VirtualObject_new_fields nid this 0 init]\<rparr>"
    have "\<And>s b. VirtualObjectFromAlias ?z s b = VirtualObjectFromAlias z s b"
      by (rule VirtualObjectFromAlias_states) simp
    with SetVirtualObject_frame [OF set] mo show ?thesis by simp
  qed
  show ?thesis
  proof (cases "\<not> force \<and> (\<exists>q. VirtualObjectFromAlias z this a = Some (Some q))")
    case True
    with assms show ?thesis
      by (auto simp: GetOrCreateTrackedVirtualObject_def)
  next
    case False
    with assms have c: "force \<or> VirtualObjectFromAlias z this a = Some None"
      by (cases force; cases "VirtualObjectFromAlias z this a")
         (auto simp: GetOrCreateTrackedVirtualObject_def)
    from assms False have "mo = length (zone_objects z)
      \<and> SetVirtualObject
               (z\<lparr>zone_objects := zone_objects z @ [VirtualObject_new_fields nid this 0 init]\<rparr>)
               this a (Some (length (zone_objects z))) = Some z1"
      by (cases force; cases "VirtualObjectFromAlias z this a")
         (auto simp: GetOrCreateTrackedVirtualObject_def new_object_def bind_eq_Some_conv
            split: option.splits)
    then show ?thesis using fresh c by blast
  qed
qed

lemma VirtualObject_new_fields_count:
  "field_count (VirtualObject_new_fields nid owner n init) = n"
  by (simp add: VirtualObject_new_fields_def field_count_def vec_resize_def)

lemma count_at_append:
  "p < length (zone_objects z) \<Longrightarrow> zone_objects z1 = zone_objects z @ xs
   \<Longrightarrow> object_at z1 p = object_at z p"
  by (simp add: object_at_def vec_at_def nth_append)

lemma MergeFrom_alias_result:
  assumes run: "MergeFrom_alias this control arity a (ch, z, g, c) = Some (ch', z', g', c')"
  shows "mc_states c' = mc_states c
    \<and> (\<forall>s b. (s, b) \<noteq> (this, a)
           \<longrightarrow> VirtualObjectFromAlias z' s b = VirtualObjectFromAlias z s b)
    \<and> length (zone_objects z) \<le> length (zone_objects z')
    \<and> (\<forall>p. p < length (zone_objects z) \<longrightarrow> VirtualObjectFromAlias z this a \<noteq> Some (Some p)
           \<longrightarrow> object_at z' p = object_at z p)
    \<and> (if all_present z (mc_states c) a
         then \<exists>mo. VirtualObjectFromAlias z' this a = Some (Some mo)
                \<and> mo < length (zone_objects z')
                \<and> count_at z' mo = merged_field_count z this (mc_states c) a
                \<and> (VirtualObjectFromAlias z this a = Some (Some mo)
                    \<or> length (zone_objects z) \<le> mo)
         else VirtualObjectFromAlias z' this a = Some None)"
proof -
  let ?sts = "mc_states c"
  from run obtain mergeObject objs cmo fld where
    prior: "VirtualObjectFromAlias z this a = Some mergeObject"
    and col: "MergeFrom_collect z ?sts mergeObject a = Some (objs, cmo, fld)"
    by (auto simp: MergeFrom_alias_def bind_eq_Some_conv)
  note cr = MergeFrom_collect_result [OF col]
  have pres: "(length objs = length ?sts) = all_present z ?sts a"
    using cr(1) contributors_all_present by simp
  show ?thesis
  proof (cases "length objs = length ?sts")
    case False
    with run prior col obtain z1 where
      set: "SetVirtualObject z this a None = Some z1" and e: "z' = z1" "c' = c\<lparr>mc_objects := objs\<rparr>"
      by (auto simp: MergeFrom_alias_def bind_eq_Some_conv Let_def)
    note f = SetVirtualObject_frame [OF set]
    from False pres have "\<not> all_present z ?sts a" by simp
    with f e show ?thesis by (simp add: object_at_def)
  next
    case True
    with run prior col obtain front f mo z1 mob z2 where
      front: "(case objs of [] \<Rightarrow> None | p # _ \<Rightarrow> object_at z p) = Some front"
      and f: "fld = Some f"
      and goc: "GetOrCreateTrackedVirtualObject z this a (vo_id front)
                  (if IsInitialized front then 1 else 0) (f \<noteq> 0) cmo = Some (mo, z1)"
      and mob: "object_at z1 mo = Some mob"
      and put: "put_object z1 mo (snd (ResizeFields mob f)) = Some z2"
      and loop: "for_each [0..<f] (MergeFrom_field mo control arity)
                   (fst (ResizeFields mob f) \<or> (ch \<or> cmo), z2, g, c\<lparr>mc_objects := objs\<rparr>)
                 = Some (ch', z', g', c')"
      by (simp add: MergeFrom_alias_def)
         (auto simp: bind_eq_Some_conv Let_def case_prod_beta)
    from front have ne: "objs \<noteq> []" by (cases objs) auto
    with cr(3) f have fmin: "f = min_count z ?sts a" by simp
    note pf = put_object_frame [OF put]
    note lf = MergeFrom_fields_frame [OF loop]
    note sz = same_zone_butD [OF lf [THEN conjunct1]]
    have all: "all_present z ?sts a" using True pres by simp
    have st': "\<And>s b. VirtualObjectFromAlias z' s b = VirtualObjectFromAlias z1 s b"
      using sz(1) VirtualObjectFromAlias_states [OF pf(1)] by simp
    have len': "length (zone_objects z') = length (zone_objects z1)"
      using sz(2) pf(2) by simp
    have other: "\<And>p. p \<noteq> mo \<Longrightarrow> object_at z' p = object_at z1 p"
      using sz(3) pf(4) by simp
    have cnt': "count_at z' mo = max (count_at z1 mo) f"
      using sz(4) pf(3) mob ResizeFields_count [of mob f] by (simp add: count_at_def)
    have molt: "mo < length (zone_objects z')" using pf(5) len' by simp
    from GetOrCreateTrackedVirtualObject_cases [OF goc] consider
      (reuse) "\<not> cmo" "VirtualObjectFromAlias z this a = Some (Some mo)" "z1 = z"
      | (fresh) "cmo \<or> VirtualObjectFromAlias z this a = Some None"
        "mo = length (zone_objects z)"
        "zone_objects z1 = zone_objects z @ [VirtualObject_new_fields (vo_id front) this 0 (f \<noteq> 0)]"
        "VirtualObjectFromAlias z1 this a = Some (Some mo)"
        "\<forall>s b. (s, b) \<noteq> (this, a)
           \<longrightarrow> VirtualObjectFromAlias z1 s b = VirtualObjectFromAlias z s b"
      by blast
    then show ?thesis
    proof cases
      case reuse
      then have "mo \<notin> set (contributors z ?sts a)"
        using cr(2) prior by auto
      then have "merged_field_count z this ?sts a = max (count_at z mo) f"
        using reuse(2) fmin by (simp add: merged_field_count_def)
      with reuse st' len' other cnt' molt all lf show ?thesis by auto
    next
      case fresh
      have "count_at z1 mo = 0"
        using fresh(2,3) by (simp add: count_at_def object_at_def vec_at_def
            VirtualObject_new_fields_count)
      then have c0: "count_at z' mo = f" using cnt' by simp
      have "merged_field_count z this ?sts a = f"
        using fresh(1) cr(2) prior fmin
        by (auto simp: merged_field_count_def split: option.splits)
      moreover have "\<And>p. p < length (zone_objects z) \<Longrightarrow> object_at z' p = object_at z p"
        using other fresh(2) count_at_append [OF _ fresh(3)] by simp
      moreover have "length (zone_objects z) \<le> length (zone_objects z')"
        using len' fresh(3) by simp
      ultimately show ?thesis
        using fresh(2,4,5) st' molt all lf c0 by auto
    qed
  qed
qed

subsection \<open>The loop over the aliases\<close>

lemma MergeFrom_aliases_frame:
  assumes "for_each as (MergeFrom_alias this control arity) (ch, z, g, c) = Some (ch', z', g', c')"
    and "distinct as"
  shows "mc_states c' = mc_states c
    \<and> (\<forall>s b. (s = this \<longrightarrow> b \<notin> set as)
           \<longrightarrow> VirtualObjectFromAlias z' s b = VirtualObjectFromAlias z s b)
    \<and> length (zone_objects z) \<le> length (zone_objects z')
    \<and> (\<forall>p. p < length (zone_objects z)
           \<longrightarrow> (\<forall>b \<in> set as. VirtualObjectFromAlias z this b \<noteq> Some (Some p))
           \<longrightarrow> object_at z' p = object_at z p)"
  using assms
proof (induction as arbitrary: ch z g c)
  case Nil
  then show ?case by simp
next
  case (Cons a as)
  from Cons.prems(1) obtain ch1 z1 g1 c1 where
    step: "MergeFrom_alias this control arity a (ch, z, g, c) = Some (ch1, z1, g1, c1)"
    and rest: "for_each as (MergeFrom_alias this control arity) (ch1, z1, g1, c1)
                 = Some (ch', z', g', c')"
    by (auto split: option.splits)
  note r = MergeFrom_alias_result [OF step]
  from Cons.prems(2) have d: "distinct as" "a \<notin> set as" by simp_all
  note ih = Cons.IH [OF rest d(1)]
  have "mc_states c' = mc_states c" using r ih by simp
  moreover have "\<forall>s b. (s = this \<longrightarrow> b \<notin> set (a # as))
           \<longrightarrow> VirtualObjectFromAlias z' s b = VirtualObjectFromAlias z s b"
    using r ih by auto
  moreover have "length (zone_objects z) \<le> length (zone_objects z')"
    using r ih by linarith
  moreover have "object_at z' p = object_at z p"
    if p: "p < length (zone_objects z)"
      and np: "\<forall>b \<in> set (a # as). VirtualObjectFromAlias z this b \<noteq> Some (Some p)" for p
  proof -
    have 1: "object_at z1 p = object_at z p" using r p np by simp
    have 2: "p < length (zone_objects z1)" using r p by linarith
    have "\<forall>b \<in> set as. VirtualObjectFromAlias z1 this b \<noteq> Some (Some p)"
    proof
      fix b assume b: "b \<in> set as"
      then have "b \<noteq> a" using d(2) by auto
      then have "VirtualObjectFromAlias z1 this b = VirtualObjectFromAlias z this b"
        using r by simp
      then show "VirtualObjectFromAlias z1 this b \<noteq> Some (Some p)" using np b by simp
    qed
    then have "object_at z' p = object_at z1 p" using ih 2 by blast
    with 1 show ?thesis by simp
  qed
  ultimately show ?case by blast
qed

lemma contributors_cong:
  assumes "\<And>s. VirtualObjectFromAlias z1 s a = VirtualObjectFromAlias z s a"
  shows "contributors z1 sts a = contributors z sts a"
    and "all_present z1 sts a = all_present z sts a"
  using assms by (simp_all add: contributors_def all_present_def)

lemma contributors_set:
  "(p \<in> set (contributors z sts a)) = (\<exists>s \<in> set sts. VirtualObjectFromAlias z s a = Some (Some p))"
  by (induction sts) (auto simp: contributors_Nil contributors_Cons split: option.splits)

lemma merged_field_count_cong:
  assumes v: "\<And>s. VirtualObjectFromAlias z1 s a = VirtualObjectFromAlias z s a"
    and o: "\<And>s p. s \<in> set (this # sts) \<Longrightarrow> VirtualObjectFromAlias z s a = Some (Some p)
               \<Longrightarrow> object_at z1 p = object_at z p"
  shows "merged_field_count z1 this sts a = merged_field_count z this sts a"
proof -
  have c: "contributors z1 sts a = contributors z sts a" by (rule contributors_cong(1) [OF v])
  have "count_at z1 p = count_at z p" if "p \<in> set (contributors z sts a)" for p
  proof -
    from that obtain s where "s \<in> set sts" "VirtualObjectFromAlias z s a = Some (Some p)"
      by (auto simp: contributors_set)
    then have "object_at z1 p = object_at z p" using o [of s p] by simp
    then show ?thesis by (simp add: count_at_def)
  qed
  then have "count_at z1 ` set (contributors z sts a) = count_at z ` set (contributors z sts a)"
    by (intro image_cong) simp_all
  then have m: "min_count z1 sts a = min_count z sts a" by (simp add: min_count_def c)
  have "\<And>q. VirtualObjectFromAlias z this a = Some (Some q) \<Longrightarrow> count_at z1 q = count_at z q"
    using o [of this] by (simp add: count_at_def)
  then show ?thesis
    by (auto simp: merged_field_count_def c m v split: option.splits)
qed

text \<open>
  \<^verbatim>\<open>MergeFrom\<close> on any zone that is well formed (slots hold allocated objects, and no object
  stands at two aliases): for every alias \<open>a\<close> of the merged state, the state holds an
  object at \<open>a\<close> exactly when every collected in-state holds one, and the slot is null
  otherwise; when present, the object has \<open>merged_field_count\<close> fields.
\<close>

lemma MergeFrom_presence_and_field_count:
  assumes run: "MergeFrom z g c this control arity = Some (changed, z', g', c')"
    and n: "VirtualState_size z this = Some n" and a: "a < n"
    and sep: "zone_separated z (this # mc_states c)"
  shows "if all_present z (mc_states c) a
         then \<exists>mo mob. VirtualObjectFromAlias z' this a = Some (Some mo)
                \<and> object_at z' mo = Some mob
                \<and> field_count mob = merged_field_count z this (mc_states c) a
         else VirtualObjectFromAlias z' this a = Some None"
proof -
  let ?sts = "mc_states c"
  let ?body = "MergeFrom_alias this control arity"
  have split: "[0..<n] = [0..<a] @ a # [Suc a..<n]"
    using a by (metis less_imp_le_nat upt_add_eq_append upt_conv_Cons le0 le_add_diff_inverse
        plus_nat.add_0)
  from run n have "for_each ([0..<a] @ a # [Suc a..<n]) ?body (False, z, g, c)
                     = Some (changed, z', g', c')"
    by (simp add: MergeFrom_def split [symmetric] split: if_splits)
  then obtain ch1 z1 g1 c1 ch2 z2 g2 c2 where
    p1: "for_each [0..<a] ?body (False, z, g, c) = Some (ch1, z1, g1, c1)"
    and p2: "?body a (ch1, z1, g1, c1) = Some (ch2, z2, g2, c2)"
    and p3: "for_each [Suc a..<n] ?body (ch2, z2, g2, c2) = Some (changed, z', g', c')"
    by (auto simp: for_each_append bind_eq_Some_conv split: option.splits)
  have f1: "mc_states c1 = ?sts"
    "\<And>s b. (s = this \<longrightarrow> b \<notin> set [0..<a])
           \<Longrightarrow> VirtualObjectFromAlias z1 s b = VirtualObjectFromAlias z s b"
    "length (zone_objects z) \<le> length (zone_objects z1)"
    "\<And>p. p < length (zone_objects z)
           \<Longrightarrow> (\<forall>b \<in> set [0..<a]. VirtualObjectFromAlias z this b \<noteq> Some (Some p))
           \<Longrightarrow> object_at z1 p = object_at z p"
    using MergeFrom_aliases_frame [OF p1] by simp_all
  have f3: "\<And>s b. (s = this \<longrightarrow> b \<notin> set [Suc a..<n])
           \<Longrightarrow> VirtualObjectFromAlias z' s b = VirtualObjectFromAlias z2 s b"
    "\<And>p. p < length (zone_objects z2)
           \<Longrightarrow> (\<forall>b \<in> set [Suc a..<n]. VirtualObjectFromAlias z2 this b \<noteq> Some (Some p))
           \<Longrightarrow> object_at z' p = object_at z2 p"
    using MergeFrom_aliases_frame [OF p3] by simp_all
  note r2 = MergeFrom_alias_result [OF p2]
  have v1: "\<And>s. VirtualObjectFromAlias z1 s a = VirtualObjectFromAlias z s a"
    using f1(2) by simp
  have o1: "object_at z1 p = object_at z p"
    if "s \<in> set (this # ?sts)" "VirtualObjectFromAlias z s a = Some (Some p)" for s p
  proof (rule f1(4))
    show "p < length (zone_objects z)" using zone_separated_valid [OF sep that] .
    show "\<forall>b \<in> set [0..<a]. VirtualObjectFromAlias z this b \<noteq> Some (Some p)"
    proof
      fix b assume "b \<in> set [0..<a]"
      then have "b \<noteq> a" by simp
      then show "VirtualObjectFromAlias z this b \<noteq> Some (Some p)"
        using zone_separated_alias [OF sep that(1) _ that(2), of this b] by auto
    qed
  qed
  have mfc: "merged_field_count z1 this ?sts a = merged_field_count z this ?sts a"
    using merged_field_count_cong [of z1 a z this ?sts] v1 o1 by blast
  have ap: "all_present z1 ?sts a = all_present z ?sts a"
    by (rule contributors_cong(2) [OF v1])
  have va: "VirtualObjectFromAlias z' this a = VirtualObjectFromAlias z2 this a"
    using f3(1) by simp
  show ?thesis
  proof (cases "all_present z ?sts a")
    case False
    with r2 ap f1(1) va show ?thesis by simp
  next
    case True
    with r2 ap f1(1) mfc obtain mo where
      mo: "VirtualObjectFromAlias z2 this a = Some (Some mo)"
      "mo < length (zone_objects z2)"
      "count_at z2 mo = merged_field_count z this ?sts a"
      "VirtualObjectFromAlias z1 this a = Some (Some mo) \<or> length (zone_objects z1) \<le> mo"
      by auto
    have "\<forall>b \<in> set [Suc a..<n]. VirtualObjectFromAlias z2 this b \<noteq> Some (Some mo)"
    proof
      fix b assume b: "b \<in> set [Suc a..<n]"
      then have ba: "b \<noteq> a" "b \<notin> set [0..<a]" by auto
      have e: "VirtualObjectFromAlias z2 this b = VirtualObjectFromAlias z this b"
        using r2 f1(2) ba by simp
      show "VirtualObjectFromAlias z2 this b \<noteq> Some (Some mo)"
      proof
        assume "VirtualObjectFromAlias z2 this b = Some (Some mo)"
        then have zb: "VirtualObjectFromAlias z this b = Some (Some mo)" using e by simp
        then have lt: "mo < length (zone_objects z)"
          using zone_separated_valid [OF sep, of this b mo] by simp
        from mo(4) show False
        proof
          assume "VirtualObjectFromAlias z1 this a = Some (Some mo)"
          then have "VirtualObjectFromAlias z this a = Some (Some mo)" using v1 by simp
          then have "a = b"
            using zone_separated_alias [OF sep, of this this a mo b] zb by simp
          then show False using ba by simp
        next
          assume "length (zone_objects z1) \<le> mo"
          then show False using lt f1(3) by simp
        qed
      qed
    qed
    then have "object_at z' mo = object_at z2 mo" using f3(2) mo(2) by blast
    moreover have "object_at z2 mo = Some (zone_objects z2 ! mo)"
      using mo(2) by (simp add: object_at_def vec_at_def)
    ultimately have "object_at z' mo = Some (zone_objects z2 ! mo)"
      "field_count (zone_objects z2 ! mo) = merged_field_count z this ?sts a"
      using mo(3) by (simp_all add: count_at_def)
    with True va mo(1) show ?thesis by auto
  qed
qed

lemma upt2: "[0..<2] = [0, Suc 0]"
  by (simp add: upt_rec)

lemmas merge_defs =
  MergeFrom_def MergeFrom_alias_def MergeFrom_collect_def MergeFrom_field_def
  MergeCache_GetFields_def GetOrCreateTrackedVirtualObject_def VirtualObject_new_fields_def
  ResizeFields_def SetField_def GetField_def IsInitialized_def field_count_def
  VirtualState_size_def VirtualObjectFromAlias_def SetVirtualObject_def
  object_at_def state_at_def put_object_def new_object_def vec_at_def vec_set_def vec_resize_def

lemma merge_example_fresh:
  "MergeFrom (merge_zone None) no_graph merge_cache 0 7 1
     = Some (True, 
        \<lparr>zone_objects = [merge_object [None, None, None] 0, merge_object [None, None] 1,
            (merge_object [None, None] 0)\<lparr>vo_status := VirtualObject_kTracked OR VirtualObject_kInitialized\<rparr>],
          zone_states = [\<lparr>vs_info = [Some 2], vs_owner = 10\<rparr>,
                     \<lparr>vs_info = [Some 1], vs_owner = 11\<rparr>]\<rparr>, no_graph, merge_cache\<lparr>mc_objects := [1]\<rparr>)"
  by (simp add: merge_defs merge_zone_def merge_object_def merge_cache_def upt2
      vo_flag_simps VirtualObject_kTracked_def)

lemma merge_zone_slots:
  "VirtualObjectFromAlias (merge_zone prior) 0 a = (if a = 0 then Some prior else None)"
  "VirtualObjectFromAlias (merge_zone prior) (Suc 0) a = (if a = 0 then Some (Some 1) else None)"
  by (auto simp: merge_zone_def VirtualObjectFromAlias_def state_at_def vec_at_def)

lemma merge_zone_counts:
  "count_at (merge_zone prior) 0 = 3" "count_at (merge_zone prior) (Suc 0) = 2"
  by (simp_all add: count_at_def merge_zone_def merge_object_def object_at_def vec_at_def
      field_count_def)

lemma MergeFrom_presence_and_field_count_example:
  "MergeFrom (merge_zone None) no_graph merge_cache 0 7 1
     = Some (True, merged_zone, no_graph, merge_cache\<lparr>mc_objects := [1]\<rparr>)
   \<and> VirtualState_size (merge_zone None) 0 = Some 1
   \<and> zone_separated (merge_zone None) (0 # mc_states merge_cache)
   \<and> all_present (merge_zone None) (mc_states merge_cache) 0
   \<and> merged_field_count (merge_zone None) 0 (mc_states merge_cache) 0 = 2
   \<and> (\<exists>mo mob. VirtualObjectFromAlias merged_zone 0 0 = Some (Some mo)
         \<and> object_at merged_zone mo = Some mob \<and> field_count mob = 2)"
proof -
  have run: "MergeFrom (merge_zone None) no_graph merge_cache 0 7 1
     = Some (True, merged_zone, no_graph, merge_cache\<lparr>mc_objects := [1]\<rparr>)"
    using merge_example_fresh by (simp add: merged_zone_def)
  have n: "VirtualState_size (merge_zone None) 0 = Some 1"
    by (simp add: VirtualState_size_def merge_zone_def state_at_def vec_at_def)
  have sep: "zone_separated (merge_zone None) (0 # mc_states merge_cache)"
    by (auto simp: zone_separated_def merge_cache_def merge_zone_slots split: if_splits)
      (simp add: merge_zone_def)
  have ap: "all_present (merge_zone None) (mc_states merge_cache) 0"
    by (simp add: all_present_def merge_cache_def merge_zone_slots)
  have mfc: "merged_field_count (merge_zone None) 0 (mc_states merge_cache) 0 = 2"
    by (simp add: merged_field_count_def min_count_def contributors_def merge_cache_def
        merge_zone_slots merge_zone_counts)
  from MergeFrom_presence_and_field_count [OF run n _ sep, of 0] ap mfc
  have "\<exists>mo mob. VirtualObjectFromAlias merged_zone 0 0 = Some (Some mo)
         \<and> object_at merged_zone mo = Some mob \<and> field_count mob = 2"
    by simp
  with run n sep ap mfc show ?thesis by simp
qed

section \<open>The escape status of an allocation through a run\<close>

subsection \<open>The status analysis\<close>


lemma keeps_trans: "keeps n sa sa1 \<Longrightarrow> keeps n sa1 sa2 \<Longrightarrow> keeps n sa sa2"
  unfolding keeps_def escaped_tracked_def by (elim conjE, intro conjI) auto

lemma status_or_keeps:
  "status_or sa i f = Some sa' \<Longrightarrow>
   (\<not> bit f 0 \<and> \<not> bit f 1) \<or> i \<noteq> n \<longrightarrow> keeps n org sa \<longrightarrow> keeps n org sa'"
proof (intro impI)
  assume a: "status_or sa i f = Some sa'" "(\<not> bit f 0 \<and> \<not> bit f 1) \<or> i \<noteq> n"
    and k: "keeps n org sa"
  have "keeps n sa sa'"
    using a
    by (auto simp: status_or_def keeps_def escaped_tracked_def vec_at_def bit_or_iff
        nth_list_update split: if_splits)
  with k show "keeps n org sa'" by (rule keeps_trans)
qed

lemma status_clear_keeps:
  "status_clear sa i f = Some sa' \<Longrightarrow>
   \<not> bit f 0 \<and> \<not> bit f 1 \<longrightarrow> keeps n org sa \<longrightarrow> keeps n org sa'"
proof (intro impI)
  assume a: "status_clear sa i f = Some sa'" "\<not> bit f 0 \<and> \<not> bit f 1"
    and k: "keeps n org sa"
  have "keeps n sa sa'"
    using a
    by (auto simp: status_clear_def keeps_def escaped_tracked_def vec_at_def bit_and_iff
        bit_not_iff nth_list_update split: if_splits)
  with k show "keeps n org sa'" by (rule keeps_trans)
qed

lemma push_keeps:
  "keeps n org sa \<Longrightarrow> keeps n org (sa\<lparr>sa_status_stack := sa_status_stack sa @ [x]\<rparr>)"
  by (auto simp: keeps_def escaped_tracked_def)



lemma for_each_until_invariant:
  assumes "for_each_until xs body s = Some (r, s')" and "I s"
    and "\<And>x s r s1. x \<in> set xs \<Longrightarrow> I s \<Longrightarrow> body x s = Some (r, s1) \<Longrightarrow> I s1"
  shows "I s'"
  using assms
proof (induction xs arbitrary: s)
  case Nil
  then show ?case by simp
next
  case (Cons x xs)
  from Cons.prems(1) obtain r1 s1 where b: "body x s = Some (r1, s1)"
    by (auto split: option.splits)
  have i1: "I s1" using Cons.prems(2,3) b by auto
  show ?case
  proof (cases r1)
    case None
    with b Cons.prems(1) have "for_each_until xs body s1 = Some (r, s')" by simp
    then show ?thesis
    proof (rule Cons.IH [OF _ i1])
      fix y t q t1 assume "y \<in> set xs" "I t" "body y t = Some (q, t1)"
      then show "I t1" using Cons.prems(3) [of y t q t1] by simp
    qed
  next
    case (Some v)
    with b Cons.prems(1) have "s' = s1" by simp
    with i1 show ?thesis by simp
  qed
qed

lemma push_or_keeps:
  "status_or (sa\<lparr>sa_status_stack := sa_status_stack sa @ [x]\<rparr>) i kOnStack = Some sa'
   \<Longrightarrow> keeps n org sa \<longrightarrow> keeps n org sa'"
  using status_or_keeps [of "sa\<lparr>sa_status_stack := sa_status_stack sa @ [x]\<rparr>" i kOnStack sa' n org]
    push_keeps [of n org sa x]
  by (simp add: flag_simps)

lemma EnqueueForStatusAnalysis_keeps:
  "EnqueueForStatusAnalysis sa node = Some sa' \<Longrightarrow> keeps n org sa \<longrightarrow> keeps n org sa'"
  by (auto simp: EnqueueForStatusAnalysis_def bind_eq_Some_conv split: if_splits
      dest!: push_or_keeps [where n = n and org = org])



lemma or_flags_keeps:
  "status_or sa i kDanglingComputed = Some sa' \<Longrightarrow> keeps n org sa \<longrightarrow> keeps n org sa'"
  "status_or sa i (kDanglingComputed OR kDangling) = Some sa' \<Longrightarrow> keeps n org sa \<longrightarrow> keeps n org sa'"
  "status_or sa i kBranchPointComputed = Some sa' \<Longrightarrow> keeps n org sa \<longrightarrow> keeps n org sa'"
  "status_or sa i (kBranchPointComputed OR kBranchPoint) = Some sa' \<Longrightarrow> keeps n org sa \<longrightarrow> keeps n org sa'"
  "status_or sa i kInQueue = Some sa' \<Longrightarrow> keeps n org sa \<longrightarrow> keeps n org sa'"
  "status_or sa i kVisited = Some sa' \<Longrightarrow> keeps n org sa \<longrightarrow> keeps n org sa'"
  "status_or sa i kOnStack = Some sa' \<Longrightarrow> keeps n org sa \<longrightarrow> keeps n org sa'"
  "status_clear sa i kInQueue = Some sa' \<Longrightarrow> keeps n org sa \<longrightarrow> keeps n org sa'"
  using status_or_keeps [of sa i _ sa' n org] status_clear_keeps [of sa i _ sa' n org]
  by (simp_all add: flag_simps)

lemma IsDanglingEffectNode_keeps:
  "IsDanglingEffectNode sa g node = Some (b, sa') \<Longrightarrow> keeps n org sa \<longrightarrow> keeps n org sa'"
  by (auto simp: IsDanglingEffectNode_def bind_eq_Some_conv
      split: if_splits option.splits
      dest!: or_flags_keeps [where n = n and org = org])

lemma IsEffectBranchPoint_body_keeps:
  "IsEffectBranchPoint_body g node edge (count, sa) = Some (r, count', sa')
   \<Longrightarrow> keeps n org sa \<longrightarrow> keeps n org sa'"
  by (auto simp: IsEffectBranchPoint_body_def bind_eq_Some_conv
      split: if_splits
      dest!: or_flags_keeps [where n = n and org = org]
        IsDanglingEffectNode_keeps [where n = n and org = org])

lemma IsEffectBranchPoint_keeps:
  "IsEffectBranchPoint sa g node = Some (b, sa') \<Longrightarrow> keeps n org sa \<longrightarrow> keeps n org sa'"
proof
  assume a: "IsEffectBranchPoint sa g node = Some (b, sa')" and k: "keeps n org sa"
  consider (known) "sa' = sa"
    | (loop) r c sa1 where
        "for_each_until (use_edges g node) (IsEffectBranchPoint_body g node) (0, sa)
           = Some (r, c, sa1)"
        "sa' = sa1 \<or> status_or sa1 node kBranchPointComputed = Some sa'"
    using a
    by (auto simp: IsEffectBranchPoint_def bind_eq_Some_conv split: if_splits option.splits)
  then show "keeps n org sa'"
  proof cases
    case known
    with k show ?thesis by simp
  next
    case loop
    have "keeps n org (snd (c, sa1))"
      by (rule for_each_until_invariant [OF loop(1), where I = "\<lambda>s. keeps n org (snd s)"])
        (auto simp: k dest!: IsEffectBranchPoint_body_keeps [where n = n and org = org])
    with loop(2) show ?thesis
      by (auto dest!: or_flags_keeps [where n = n and org = org])
  qed
qed























subsection \<open>The graph\<close>
















subsection \<open>The object analysis keeps the status of an allocation and the graph's old nodes\<close>














subsection \<open>Postconditions of fallible computations\<close>












lemma ensures_use:
  "ensures m P \<Longrightarrow> ensures m Q = (\<forall>r. m = Some r \<longrightarrow> P r \<longrightarrow> Q r)"
  by (auto simp: ensures_def)


lemma ensures_pair:
  "(\<And>a b. m = Some (a, b) \<Longrightarrow> A \<longrightarrow> B b)
   \<Longrightarrow> ensures m Q = (\<forall>r. m = Some r \<longrightarrow> (A \<longrightarrow> B (snd r)) \<longrightarrow> Q r)"
  by (auto simp: ensures_def)




lemmas wp_IsEffectBranchPoint = ensures_pair [OF IsEffectBranchPoint_keeps]











































subsection \<open>The assignment of aliases\<close>































subsection \<open>A run on Start, a size that is no constant, Allocate, End\<close>




















end
